theory Spec2Isabelle
  imports Main "HOL-Library.Word"
begin

section \<open>Errors and log lines\<close>

text \<open>
  A Go \<open>error\<close> value is modelled by its message. A log line is the severity of the
  logger method that was called together with the formatted text.
\<close>

datatype error = Err string

datatype level = Debug | Info | Warn | Error

type_synonym logline = "level \<times> string"

section \<open>path.Join and path.Clean (Go standard library)\<close>

text \<open>
  \<open>VersionedDBID\<close> and \<open>DBPath\<close> are one call of \<open>path.Join\<close> each. \<open>path.Join\<close>
  drops the leading empty elements, joins the rest with a slash and returns
  \<open>path.Clean\<close> of the result (the empty string when every element is empty).
  \<open>path.Clean\<close> works on the slash-separated components: empty components and
  \<open>.\<close> are skipped, \<open>..\<close> removes the last kept component, is dropped at the root of
  a rooted path and is kept in front of a relative one; an empty result is \<open>.\<close>.
\<close>

fun split_slash :: "string \<Rightarrow> string list" where
  "split_slash [] = [[]]"
| "split_slash (c # cs) =
     (if c = CHR ''/'' then [] # split_slash cs
      else (case split_slash cs of
              [] \<Rightarrow> [[c]]
            | w # ws \<Rightarrow> (c # w) # ws))"

fun join_slash :: "string list \<Rightarrow> string" where
  "join_slash [] = []"
| "join_slash [w] = w"
| "join_slash (w # v # ws) = w @ ''/'' @ join_slash (v # ws)"

text \<open>
  The state of the cleaning loop is the number of \<open>..\<close> components kept at the
  front (always zero on a rooted path) and the components kept after them, last first.
\<close>

definition clean_comp :: "bool \<Rightarrow> nat \<times> string list \<Rightarrow> string \<Rightarrow> nat \<times> string list" where
  "clean_comp rooted acc c =
     (case acc of (ups, kept) \<Rightarrow>
        if c = [] \<or> c = ''.'' then (ups, kept)
        else if c = ''..'' then
          (case kept of
             _ # kept' \<Rightarrow> (ups, kept')
           | [] \<Rightarrow> if rooted then (ups, []) else (Suc ups, []))
        else (ups, c # kept))"

definition Clean :: "string \<Rightarrow> string" where
  "Clean p =
     (if p = [] then ''.''
      else
        let rooted = (hd p = CHR ''/'');
            acc = foldl (clean_comp rooted) (0, []) (split_slash p);
            comps = replicate (fst acc) ''..'' @ rev (snd acc)
        in if rooted then CHR ''/'' # join_slash comps
           else if comps = [] then ''.''
           else join_slash comps)"

definition Join :: "string list \<Rightarrow> string" where
  "Join elem =
     (case dropWhile (\<lambda>e. e = []) elem of
        [] \<Rightarrow> []
      | es \<Rightarrow> Clean (join_slash es))"

section \<open>The database registry (data.go)\<close>

definition commonDBID :: string where
  "commonDBID = ''common''"

definition commonDBVersion :: string where
  "commonDBVersion = ''base''"

definition configDataPathKey :: string where
  "configDataPathKey = ''data_path''"

text \<open>
  The configuration service is a lookup of strings by key; \<open>debug\<close> is the outcome of
  the comparison of the configured log level with \<open>debug\<close> that guards the periodic
  connection logger.
\<close>

record config =
  GetString :: "string \<Rightarrow> string"
  debug :: bool

definition VersionedDBID :: "string \<Rightarrow> string \<Rightarrow> string" where
  "VersionedDBID dbid version = Join [dbid, version]"

definition DBPath :: "config \<Rightarrow> string \<Rightarrow> string" where
  "DBPath cfg versionedID =
     (let storagePath = GetString cfg ''local_storage_path'';
          relativeDataPath = GetString cfg configDataPathKey
      in Join [storagePath, relativeDataPath, versionedID, ''sqlite3''])"

text \<open>
  An \<open>*ApidDb\<close> is modelled by its address, a natural number; a new address is the
  allocation counter of the state, so two allocations never give the same handle.
  A channel made for the connection logger is an address of its own kind. A
  pointer that may be nil is an option.
\<close>

type_synonym handle = nat

record dbMapInfo =
  db :: "handle option"
  closed :: "nat option"

text \<open>
  \<open>dbMap\<close> maps a versioned id to a pointer: a key can be absent, present with a nil
  pointer (after a release) or present with an entry. \<open>finalizers\<close> are the calls of
  \<open>runtime.SetFinalizer\<close> made so far, \<open>stopped\<close> the channels a stop signal was sent on.
\<close>

record registry =
  dbMap :: "string \<rightharpoonup> dbMapInfo option"
  next_db :: handle
  next_chan :: nat
  finalizers :: "(handle \<times> string) list"
  stopped :: "nat list"
  log :: "logline list"

definition empty_registry :: registry where
  "empty_registry =
     \<lparr>dbMap = Map.empty, next_db = 0, next_chan = 0, finalizers = [], stopped = [], log = []\<rparr>"

text \<open>Indexing a Go map: an absent key gives the zero value, the nil pointer.\<close>

definition dbMap_index :: "registry \<Rightarrow> string \<Rightarrow> dbMapInfo option" where
  "dbMap_index s k = (case dbMap s k of None \<Rightarrow> None | Some p \<Rightarrow> p)"

text \<open>The test \<open>dbm != nil && dbm.db != nil\<close>, giving the handle when it holds.\<close>

definition live_db :: "dbMapInfo option \<Rightarrow> handle option" where
  "live_db dbm = (case dbm of None \<Rightarrow> None | Some i \<Rightarrow> db i)"

definition logf :: "level \<Rightarrow> string \<Rightarrow> registry \<Rightarrow> registry" where
  "logf l msg s = s\<lparr>log := log s @ [(l, msg)]\<rparr>"

definition err_text :: "error \<Rightarrow> string" where
  "err_text e = (case e of Err m \<Rightarrow> m)"

text \<open>
  What the operating system and the engine answer during one creation: the results of
  \<open>os.MkdirAll\<close>, \<open>sql.Open\<close>, \<open>db.Ping\<close> and of the two pragmas.
\<close>

record env =
  mkdir_err :: "error option"
  open_err :: "error option"
  ping_err :: "error option"
  wal_err :: "error option"
  fk_err :: "error option"

definition env_ok :: env where
  "env_ok = \<lparr>mkdir_err = None, open_err = None, ping_err = None, wal_err = None, fk_err = None\<rparr>"

type_synonym dbresult = "handle option \<times> error option"

text \<open>
  \<open>dbVersionForID\<close> from the write lock on: the part that runs under \<open>dbMapSync.Lock()\<close>.
  It does not read \<open>dbMap\<close>; it writes it in its last statement. The named result
  \<open>retDb\<close> is assigned before the ping, so the later bare returns carry it. The
  registration of the wrapped driver (a second registration panics and is recovered)
  and the pool settings change nothing the registry keeps and are left out.
\<close>

definition dbVersionForID_locked :: "config \<Rightarrow> env \<Rightarrow> string \<Rightarrow> registry \<Rightarrow> dbresult \<times> registry" where
  "dbVersionForID_locked cfg ev versionedID s =
     (let dataPath = DBPath cfg versionedID in
      case mkdir_err ev of
        Some e \<Rightarrow> ((None, Some e), s)
      | None \<Rightarrow>
     (let s1 = logf Info (''LoadDB: '' @ dataPath) s in
      case open_err ev of
        Some e \<Rightarrow> ((None, Some e), logf Error (''error loading db: '' @ err_text e) s1)
      | None \<Rightarrow>
     (let retDb = next_db s1;
          s2 = s1\<lparr>next_db := Suc (next_db s1)\<rparr> in
      case ping_err ev of
        Some e \<Rightarrow> ((Some retDb, Some e), logf Error (''error pinging db: '' @ err_text e) s2)
      | None \<Rightarrow>
     (case wal_err ev of
        Some e \<Rightarrow> ((Some retDb, Some e), logf Error (''error setting journal_mode: '' @ err_text e) s2)
      | None \<Rightarrow>
     (case fk_err ev of
        Some e \<Rightarrow> ((Some retDb, Some e), logf Error (''error enabling foreign_keys: '' @ err_text e) s2)
      | None \<Rightarrow>
     (let stoplogchan = (if debug cfg then Some (next_chan s2) else None);
          s3 = (if debug cfg then s2\<lparr>next_chan := Suc (next_chan s2)\<rparr> else s2);
          dbInfo = \<lparr>db = Some retDb, closed = stoplogchan\<rparr>
      in ((Some retDb, None), s3\<lparr>dbMap := (dbMap s3)(versionedID \<mapsto> Some dbInfo)\<rparr>)))))))"

text \<open>
  The whole of \<open>dbVersionForID\<close> when nothing runs between its two critical sections:
  the lookup under the read lock, then the creation under the write lock.
\<close>

definition dbVersionForID :: "config \<Rightarrow> env \<Rightarrow> string \<Rightarrow> string \<Rightarrow> registry \<Rightarrow> dbresult \<times> registry" where
  "dbVersionForID cfg ev dbid version s =
     (let versionedID = VersionedDBID dbid version;
          dbm = dbMap_index s versionedID
      in case live_db dbm of
           Some h \<Rightarrow> ((Some h, None), s)
         | None \<Rightarrow> dbVersionForID_locked cfg ev versionedID s)"

definition DB :: "config \<Rightarrow> env \<Rightarrow> registry \<Rightarrow> dbresult \<times> registry" where
  "DB cfg ev s = dbVersionForID cfg ev commonDBID commonDBVersion s"

definition DBForID :: "config \<Rightarrow> env \<Rightarrow> string \<Rightarrow> registry \<Rightarrow> dbresult \<times> registry" where
  "DBForID cfg ev dbid s =
     (if dbid = commonDBID then ((None, Some (Err (''reserved ID: '' @ dbid))), s)
      else dbVersionForID cfg ev dbid commonDBVersion s)"

definition DBVersion :: "config \<Rightarrow> env \<Rightarrow> string \<Rightarrow> registry \<Rightarrow> dbresult \<times> registry" where
  "DBVersion cfg ev version s =
     (if version = commonDBVersion then ((None, Some (Err (''reserved version: '' @ version))), s)
      else dbVersionForID cfg ev commonDBID version s)"

definition DBVersionForID :: "config \<Rightarrow> env \<Rightarrow> string \<Rightarrow> string \<Rightarrow> registry \<Rightarrow> dbresult \<times> registry" where
  "DBVersionForID cfg ev dbid version s =
     (if dbid = commonDBID then ((None, Some (Err (''reserved ID: '' @ dbid))), s)
      else if version = commonDBVersion then ((None, Some (Err (''reserved version: '' @ version))), s)
      else dbVersionForID cfg ev dbid version s)"

text \<open>
  \<open>Delete versionedID\<close> is the finalizer that \<open>ReleaseDBForID\<close> registers on a handle.
  When the collector runs it, it closes the pool, removes the directory of the key and
  deletes the key from \<open>dbMap\<close>; both errors are only logged.
\<close>

definition Delete :: "string \<Rightarrow> error option \<Rightarrow> error option \<Rightarrow> registry \<Rightarrow> registry" where
  "Delete versionedID close_err remove_err s =
     (let s1 = (case close_err of None \<Rightarrow> s
                | Some e \<Rightarrow> logf Error (''error closing DB: '' @ err_text e) s);
          s2 = (case remove_err of None \<Rightarrow> s1
                | Some e \<Rightarrow> logf Error (''error removing DB files: '' @ err_text e) s1)
      in s2\<lparr>dbMap := (dbMap s2)(versionedID := None)\<rparr>)"

text \<open>
  \<open>ReleaseDBForID\<close> returns nothing; the model returns the new state, or \<open>None\<close> when the
  call never returns: with debug logging on it sends on the entry's channel, and a send
  on a nil channel blocks for ever.
\<close>

definition ReleaseDBForID :: "config \<Rightarrow> string \<Rightarrow> string \<Rightarrow> registry \<Rightarrow> registry option" where
  "ReleaseDBForID cfg dbid version s =
     (let versionedID = VersionedDBID dbid version;
          dbm = dbMap_index s versionedID
      in case dbm of
           None \<Rightarrow>
             Some (logf Error (''Cannot find DB handle for ver {'' @ version @ ''} to release'') s)
         | Some i \<Rightarrow>
            (case db i of
               None \<Rightarrow>
                 Some (logf Error (''Cannot find DB handle for ver {'' @ version @ ''} to release'') s)
             | Some h \<Rightarrow>
                (case (if debug cfg
                       then (case closed i of
                               None \<Rightarrow> None
                             | Some c \<Rightarrow> Some (s\<lparr>stopped := stopped s @ [c]\<rparr>))
                       else Some s) of
                   None \<Rightarrow> None
                 | Some s1 \<Rightarrow>
                     let s2 = logf Warn ''SETTING FINALIZER'' s1;
                         s3 = s2\<lparr>finalizers := finalizers s2 @ [(h, versionedID)]\<rparr>
                     in Some (s3\<lparr>dbMap := (dbMap s3)(versionedID \<mapsto> None)\<rparr>))))"

definition ReleaseDB :: "config \<Rightarrow> string \<Rightarrow> registry \<Rightarrow> registry option" where
  "ReleaseDB cfg version s = ReleaseDBForID cfg commonDBID version s"

definition ReleaseCommonDB :: "config \<Rightarrow> registry \<Rightarrow> registry option" where
  "ReleaseCommonDB cfg s = ReleaseDBForID cfg commonDBID commonDBVersion s"

text \<open>
  The states the registry can be in: the empty registry, and every state reached from a
  reachable one by a lookup-or-create, by a creation under the write lock alone (the
  second section of a caller that missed earlier), by a release that returns, or by the
  collector running a registered finalizer. Every call reads the configuration anew,
  so each step has a configuration of its own.
\<close>

inductive reachable :: "registry \<Rightarrow> bool" where
  reach_empty: "reachable empty_registry"
| reach_get: "reachable s \<Longrightarrow> dbVersionForID cfg ev dbid version s = (r, s') \<Longrightarrow> reachable s'"
| reach_create: "reachable s \<Longrightarrow> dbVersionForID_locked cfg ev versionedID s = (r, s') \<Longrightarrow>
     reachable s'"
| reach_release: "reachable s \<Longrightarrow> ReleaseDBForID cfg dbid version s = Some s' \<Longrightarrow> reachable s'"
| reach_finalize: "reachable s \<Longrightarrow> (h, k) \<in> set (finalizers s) \<Longrightarrow>
     reachable (Delete k close_err remove_err s)"

text \<open>
  The invariant of the reachable states: every entry of \<open>dbMap\<close> has a handle, and the
  handle was allocated before.
\<close>

definition registry_inv :: "registry \<Rightarrow> bool" where
  "registry_inv s =
     (\<forall>k i. dbMap s k = Some (Some i) \<longrightarrow> (\<exists>h. db i = Some h \<and> h < next_db s))"

text \<open>
  Two callers of \<open>dbVersionForID\<close> at once. The read-locked lookup and the write-locked
  creation are the two critical sections of a call; \<open>dbMapSync\<close> keeps a creation from
  overlapping any other section, so a run of several callers is an interleaving of
  these sections. A caller is before its lookup, between the two sections after a
  miss, or has returned.
\<close>

datatype caller = Start string string | Missed string | Returned dbresult

fun caller_step :: "config \<Rightarrow> env \<Rightarrow> caller \<Rightarrow> registry \<Rightarrow> caller \<times> registry" where
  "caller_step cfg ev (Start dbid version) s =
     (let versionedID = VersionedDBID dbid version
      in case live_db (dbMap_index s versionedID) of
           Some h \<Rightarrow> (Returned (Some h, None), s)
         | None \<Rightarrow> (Missed versionedID, s))"
| "caller_step cfg ev (Missed versionedID) s =
     (case dbVersionForID_locked cfg ev versionedID s of (r, s') \<Rightarrow> (Returned r, s'))"
| "caller_step cfg ev (Returned r) s = (Returned r, s)"

text \<open>A schedule names, step by step, the caller that runs its next section.\<close>

fun run :: "config \<Rightarrow> env \<Rightarrow> nat list \<Rightarrow> caller list \<times> registry \<Rightarrow> caller list \<times> registry" where
  "run cfg ev [] st = st"
| "run cfg ev (n # sched) (cs, s) =
     (if n < length cs
      then (case caller_step cfg ev (cs ! n) s of
              (c', s') \<Rightarrow> run cfg ev sched (cs[n := c'], s'))
      else run cfg ev sched (cs, s))"

text \<open>An example configuration: storage under \<open>/var/apid\<close>, the default data path.\<close>

definition example_config :: config where
  "example_config =
     \<lparr>GetString = (\<lambda>k. if k = ''local_storage_path'' then ''/var/apid''
                       else if k = ''data_path'' then ''sqlite'' else []),
      debug = False\<rparr>"

text \<open>An example state: the registry after the first access to (\<open>org1\<close>, \<open>1.0\<close>).\<close>

definition example_registry :: registry where
  "example_registry = snd (dbVersionForID example_config env_ok ''org1'' ''1.0'' empty_registry)"

section \<open>Transactions on a handle (data.go)\<close>

text \<open>
  The \<open>*sql.Tx\<close> inside a transaction is in flight from \<open>db.Begin\<close> until its first
  \<open>Commit\<close> or \<open>Rollback\<close>; database/sql marks it done before it asks the driver, and
  answers every later \<open>Commit\<close> or \<open>Rollback\<close> with \<open>ErrTxDone\<close>.
\<close>

datatype sqlTx = InFlight | TxDone


text \<open>
  A \<open>Tx\<close> holds its \<open>*sql.Tx\<close>, the pointer to the mutex of the handle it was begun on
  (a mutex is named by its handle) and the \<open>closed\<close> flag.
\<close>

record Tx =
  tx :: sqlTx
  mutex :: handle
  tx_closed :: bool

text \<open>
  The store: which mutexes are locked, the \<open>Tx\<close> objects allocated so far (a \<open>*Tx\<close> is
  an index into the list), and a record of every \<open>Unlock\<close> a \<open>Tx\<close> has made.
\<close>

record txstore =
  locked :: "handle \<Rightarrow> bool"
  txs :: "Tx list"
  unlocks :: "nat list"








text \<open>The transactions in flight on a handle, by index.\<close>

definition in_flight :: "txstore \<Rightarrow> handle \<Rightarrow> nat list" where
  "in_flight st d = filter (\<lambda>t. mutex (txs st ! t) = d \<and> tx (txs st ! t) = InFlight) [0..<length (txs st)]"




section \<open>The tracing connection (wrap package)\<close>

text \<open>
  A trace line: the severity of the logger method called, the field the logger was
  given by \<open>WithField\<close> (none for the connection's own logger), the format and its
  arguments. Query arguments and rows are opaque values of the driver.
\<close>

datatype ('v, 'r) logarg = AStr string | AErr error | AArgs 'v | ARows "'r option"

record ('v, 'r) traceline =
  lvl :: level
  with_field :: "(string \<times> 64 word) option"
  fmt :: string
  fargs :: "('v, 'r) logarg list"

text \<open>
  The connection: the two counters (\<open>int64\<close>, incremented with \<open>atomic.AddInt64\<close>) and
  what its logger has written. The embedded \<open>SQLiteConn\<close> is the engine; what it answers
  to a call is an argument of the model.
\<close>

record ('v, 'r) wrapConn =
  stmtCounter :: "64 word"
  txCounter :: "64 word"
  written :: "('v, 'r) traceline list"

definition emit :: "level \<Rightarrow> (string \<times> 64 word) option \<Rightarrow> string \<Rightarrow> ('v, 'r) logarg list \<Rightarrow>
    ('v, 'r) wrapConn \<Rightarrow> ('v, 'r) wrapConn" where
  "emit l f m as c = c\<lparr>written := written c @ [\<lparr>lvl = l, with_field = f, fmt = m, fargs = as\<rparr>]\<rparr>"

text \<open>
  \<open>Prepare\<close> and \<open>Begin\<close> return the engine's error with a nil result, or on success the
  engine's object wrapped together with the logger that carries the counter.
\<close>

definition Prepare :: "string \<Rightarrow> error + 's \<Rightarrow> ('v, 'r) wrapConn \<Rightarrow>
    (error + ('s \<times> (string \<times> 64 word))) \<times> ('v, 'r) wrapConn" where
  "Prepare query res c =
     (let stmtID = stmtCounter c + 1;
          c1 = c\<lparr>stmtCounter := stmtID\<rparr>;
          lg = Some (''stmt'', stmtID);
          c2 = emit Debug lg ''begin prepare stmt: %s'' [AStr query] c1
      in case res of
           Inl err \<Rightarrow> (Inl err, emit Error lg ''prepare stmt failed: %s'' [AErr err] c2)
         | Inr stmt \<Rightarrow> (Inr (stmt, (''stmt'', stmtID)), emit Debug lg ''end prepare stmt'' [] c2))"

definition wrapConn_Begin :: "error + 't \<Rightarrow> ('v, 'r) wrapConn \<Rightarrow>
    (error + ('t \<times> (string \<times> 64 word))) \<times> ('v, 'r) wrapConn" where
  "wrapConn_Begin res c =
     (let txID = txCounter c + 1;
          c1 = c\<lparr>txCounter := txID\<rparr>;
          lg = Some (''tx'', txID);
          c2 = emit Debug lg ''begin trans'' [] c1
      in case res of
           Inl err \<Rightarrow> (Inl err, emit Error lg ''begin trans failed: %s'' [AErr err] c2)
         | Inr t \<Rightarrow> (Inr (t, (''tx'', txID)), emit Debug lg ''end begin trans'' [] c2))"

definition Close :: "error option \<Rightarrow> ('v, 'r) wrapConn \<Rightarrow> error option \<times> ('v, 'r) wrapConn" where
  "Close res c =
     (let c1 = emit Debug None ''begin close conn'' [] c
      in case res of
           Some err \<Rightarrow> (Some err, emit Error None ''close conn failed: %s'' [AErr err] c1)
         | None \<Rightarrow> (None, emit Debug None ''end close conn'' [] c1))"

text \<open>\<open>Query\<close> returns the engine's pair of rows and error as it got it.\<close>

definition Query :: "string \<Rightarrow> 'v \<Rightarrow> 'r option \<times> error option \<Rightarrow> ('v, 'r) wrapConn \<Rightarrow>
    ('r option \<times> error option) \<times> ('v, 'r) wrapConn" where
  "Query query args res c =
     (let c1 = emit Debug None ''begin query: %s args: %#v'' [AStr query, AArgs args] c
      in case snd res of
           Some err \<Rightarrow> (res, emit Debug None ''query failed: %s'' [AErr err] c1)
         | None \<Rightarrow> (res, emit Debug None ''end query: %#v'' [ARows (fst res)] c1))"

text \<open>The trace lines a call has added, and those of them at error severity.\<close>

definition added :: "('v, 'r) wrapConn \<Rightarrow> ('v, 'r) wrapConn \<Rightarrow> ('v, 'r) traceline list" where
  "added c c' = drop (length (written c)) (written c')"

definition errors_logged :: "('v, 'r) wrapConn \<Rightarrow> ('v, 'r) wrapConn \<Rightarrow> error list" where
  "errors_logged c c' =
     concat (map (\<lambda>l. if lvl l = Error then [e. AErr e \<leftarrow> fargs l] else []) (added c c'))"

section \<open>The result-set mapper (data.go)\<close>

subsection \<open>Go types and values of the fields\<close>

text \<open>
  The field types the mapper tells apart, by what the reflect package answers for
  them. \<open>TInt\<close> and \<open>TUint\<close> are the signed and unsigned integer kinds with the printed
  name of the type and its width (\<open>int\<close> is 64 bits wide); \<open>TInterface\<close> is the empty
  interface; \<open>TOther\<close> is any type that none of the mapper's tests accepts, by name.
\<close>

datatype gotype =
    TString | TBytes
  | TNullString | TNullInt64 | TNullFloat64
  | TInt string nat | TUint string nat
  | TFloat32 | TFloat64
  | TInterface
  | TOther string

fun type_name :: "gotype \<Rightarrow> string" where
  "type_name TString = ''string''"
| "type_name TBytes = ''[]uint8''"
| "type_name TNullString = ''sql.NullString''"
| "type_name TNullInt64 = ''sql.NullInt64''"
| "type_name TNullFloat64 = ''sql.NullFloat64''"
| "type_name (TInt n w) = n"
| "type_name (TUint n w) = n"
| "type_name TFloat32 = ''float32''"
| "type_name TFloat64 = ''float64''"
| "type_name TInterface = ''interface {}''"
| "type_name (TOther n) = n"

type_synonym byte = "8 word"

text \<open>
  Values. A \<open>float64\<close> is its 64 bits; a \<open>float32\<close> field holds the conversion of a
  \<open>float64\<close>, kept as the \<open>float64\<close> it was converted from. A signed integer field
  holds its value sign-extended to 64 bits. A byte slice can be nil. The three
  nullable structs are their value and their \<open>Valid\<close> flag.
\<close>

datatype goval =
    VString string
  | VBytes "byte list option"
  | VNullString string bool
  | VNullInt64 "64 word" bool
  | VNullFloat64 "64 word" bool
  | VInt "64 word"
  | VUint "64 word"
  | VFloat32of "64 word"
  | VFloat64 "64 word"
  | VInterface "goval option"
  | VOther

fun zero :: "gotype \<Rightarrow> goval" where
  "zero TString = VString []"
| "zero TBytes = VBytes None"
| "zero TNullString = VNullString [] False"
| "zero TNullInt64 = VNullInt64 0 False"
| "zero TNullFloat64 = VNullFloat64 0 False"
| "zero (TInt n w) = VInt 0"
| "zero (TUint n w) = VUint 0"
| "zero TFloat32 = VFloat32of 0"
| "zero TFloat64 = VFloat64 0"
| "zero TInterface = VInterface None"
| "zero (TOther n) = VOther"

text \<open>The conversion \<open>string(b)\<close> of a byte slice, nil or not, and its inverse.\<close>

definition string_of_bytes :: "byte list option \<Rightarrow> string" where
  "string_of_bytes b = (case b of None \<Rightarrow> [] | Some bs \<Rightarrow> map (\<lambda>x. char_of (unat x)) bs)"

definition bytes_of_string :: "string \<Rightarrow> byte list" where
  "bytes_of_string s = map (\<lambda>c. of_nat (of_char c)) s"

subsection \<open>Struct types, records and the mapper cache\<close>

text \<open>
  A field of a struct type: its name, the value of its \<open>db\<close> tag (empty when it has
  none) and its type. A struct type is its name and its fields; a record of the type
  is the list of its field names with their values.
\<close>

record StructField =
  sf_name :: string
  sf_tag :: string
  sf_type :: gotype

record gostruct =
  struct_name :: string
  struct_fields :: "StructField list"

type_synonym structval = "(string \<times> goval) list"

definition zero_struct :: "gostruct \<Rightarrow> structval" where
  "zero_struct t = map (\<lambda>f. (sf_name f, zero (sf_type f))) (struct_fields t)"

text \<open>\<open>tagFieldMapper\<close>: for a struct type, the map from column name to field name.\<close>

type_synonym mapper = "string \<rightharpoonup> string"

definition build_mapper :: "gostruct \<Rightarrow> mapper" where
  "build_mapper t =
     foldl (\<lambda>m f. if sf_tag f \<noteq> [] then m(sf_tag f \<mapsto> sf_name f) else m)
       Map.empty (struct_fields t)"

definition mapper_of :: "(gostruct \<rightharpoonup> mapper) \<Rightarrow> gostruct \<Rightarrow> mapper \<times> (gostruct \<rightharpoonup> mapper)" where
  "mapper_of tagFieldMapper t =
     (case tagFieldMapper t of
        Some m \<Rightarrow> (m, tagFieldMapper)
      | None \<Rightarrow> (build_mapper t, tagFieldMapper(t \<mapsto> build_mapper t)))"

text \<open>Indexing the mapper: an absent column gives the empty string.\<close>

definition mapper_index :: "mapper \<Rightarrow> string \<Rightarrow> string" where
  "mapper_index m col = (case m col of None \<Rightarrow> [] | Some n \<Rightarrow> n)"

text \<open>\<open>v.FieldByName\<close>: the field of that name, if the struct has one.\<close>

definition FieldByName :: "gostruct \<Rightarrow> string \<Rightarrow> StructField option" where
  "FieldByName t n = find (\<lambda>f. sf_name f = n) (struct_fields t)"

text \<open>
  A field can be set through reflection only when it is exported, that is when its
  name starts with an upper-case letter (the ASCII ones here).
\<close>

definition exported :: "StructField \<Rightarrow> bool" where
  "exported f =
     (case sf_name f of [] \<Rightarrow> False | c # _ \<Rightarrow> c \<in> set ''ABCDEFGHIJKLMNOPQRSTUVWXYZ'')"

definition set_field :: "string \<Rightarrow> goval \<Rightarrow> structval \<Rightarrow> structval" where
  "set_field n x v = map (\<lambda>(k, y). if k = n then (k, x) else (k, y)) v"

definition get_field :: "structval \<Rightarrow> string \<Rightarrow> goval option" where
  "get_field v n = map_of v n"

subsection \<open>Carriers and assignment\<close>

text \<open>
  The carrier allocated for a column, and after \<open>rows.Scan\<close> its content:
  \<open>sql.NullString\<close>, \<open>sql.NullInt64\<close>, \<open>sql.NullFloat64\<close> or a byte slice.
\<close>

datatype carrier =
    CNullString string bool
  | CNullInt64 "64 word" bool
  | CNullFloat64 "64 word" bool
  | CBytes "byte list option"

text \<open>A call ends by returning an error or by a panic of the reflect package or the runtime.\<close>

datatype failure = ReturnsError error | Panics string

definition new_carrier :: "string \<Rightarrow> failure + carrier" where
  "new_carrier ty =
     (if ty = ''null'' then Inr (CNullString [] False)
      else if ty = ''text'' then Inr (CNullString [] False)
      else if ty = ''integer'' then Inr (CNullInt64 0 False)
      else if ty = ''float'' then Inr (CNullFloat64 0 False)
      else if ty = ''blob'' then Inr (CBytes None)
      else Inl (ReturnsError (Err (''unsupprted column type: '' @ ty))))"

text \<open>
  The first loop: one carrier for each column name, chosen by \<open>colTypes[i]\<close>; the
  index is out of range when there are fewer types than names.
\<close>

fun new_carriers :: "nat \<Rightarrow> string list \<Rightarrow> failure + carrier list" where
  "new_carriers 0 tys = Inr []"
| "new_carriers (Suc n) [] = Inl (Panics ''index out of range'')"
| "new_carriers (Suc n) (ty # tys) =
     (case new_carrier ty of
        Inl e \<Rightarrow> Inl e
      | Inr c \<Rightarrow> (case new_carriers n tys of Inl e \<Rightarrow> Inl e | Inr cs \<Rightarrow> Inr (c # cs)))"

text \<open>
  What reflect answers: \<open>AssignableTo\<close> from the type of a carrier and from \<open>string\<close>,
  \<open>ConvertibleTo\<close> from \<open>int64\<close> and from \<open>float64\<close>.
\<close>

definition assignable_from :: "gotype \<Rightarrow> gotype \<Rightarrow> bool" where
  "assignable_from src ft = (ft = src \<or> ft = TInterface)"

fun int64_convertible_to :: "gotype \<Rightarrow> bool" where
  "int64_convertible_to (TInt n w) = True"
| "int64_convertible_to (TUint n w) = True"
| "int64_convertible_to TFloat32 = True"
| "int64_convertible_to TFloat64 = True"
| "int64_convertible_to TString = True"
| "int64_convertible_to _ = False"

fun float64_convertible_to :: "gotype \<Rightarrow> bool" where
  "float64_convertible_to (TInt n w) = True"
| "float64_convertible_to (TUint n w) = True"
| "float64_convertible_to TFloat32 = True"
| "float64_convertible_to TFloat64 = True"
| "float64_convertible_to _ = False"

text \<open>
  The setters of \<open>reflect.Value\<close>. Each gives the new value of the field, or panics: on
  an unexported field, or on a field whose kind is not the setter's.
\<close>

definition Set :: "StructField \<Rightarrow> goval \<Rightarrow> failure + goval" where
  "Set f x =
     (if \<not> exported f then Inl (Panics ''reflect: value obtained using unexported field'')
      else if sf_type f = TInterface then Inr (VInterface (Some x))
      else Inr x)"

definition SetString :: "StructField \<Rightarrow> string \<Rightarrow> failure + goval" where
  "SetString f s =
     (if \<not> exported f then Inl (Panics ''reflect: value obtained using unexported field'')
      else if sf_type f = TString then Inr (VString s)
      else Inl (Panics ''reflect: call of reflect.Value.SetString on non-string Value''))"

definition SetInt :: "StructField \<Rightarrow> 64 word \<Rightarrow> failure + goval" where
  "SetInt f x =
     (if \<not> exported f then Inl (Panics ''reflect: value obtained using unexported field'')
      else case sf_type f of
             TInt n w \<Rightarrow> Inr (VInt (signed_take_bit (w - 1) x))
           | _ \<Rightarrow> Inl (Panics ''reflect: call of reflect.Value.SetInt on non-int Value''))"

definition SetFloat :: "StructField \<Rightarrow> 64 word \<Rightarrow> failure + goval" where
  "SetFloat f x =
     (if \<not> exported f then Inl (Panics ''reflect: value obtained using unexported field'')
      else case sf_type f of
             TFloat32 \<Rightarrow> Inr (VFloat32of x)
           | TFloat64 \<Rightarrow> Inr (VFloat64 x)
           | _ \<Rightarrow> Inl (Panics ''reflect: call of reflect.Value.SetFloat on non-float Value''))"

definition SetBytes :: "StructField \<Rightarrow> byte list option \<Rightarrow> failure + goval" where
  "SetBytes f b =
     (if \<not> exported f then Inl (Panics ''reflect: value obtained using unexported field'')
      else if sf_type f = TBytes then Inr (VBytes b)
      else Inl (Panics ''reflect: call of reflect.Value.SetBytes on non-slice Value''))"

definition is_empty_bytes :: "byte list option \<Rightarrow> bool" where
  "is_empty_bytes b = (case b of None \<Rightarrow> True | Some bs \<Rightarrow> bs = [])"

definition cannot_convert :: "string \<Rightarrow> StructField \<Rightarrow> failure" where
  "cannot_convert ty f =
     ReturnsError (Err (''cannot convert column type '' @ ty @ '' to field type ''
        @ type_name (sf_type f)))"

text \<open>
  The body of the type switch for one column whose field \<open>f\<close> is valid: the new value of
  the field, \<open>None\<close> when the field is left as it is.
\<close>

fun assign :: "string \<Rightarrow> StructField \<Rightarrow> carrier \<Rightarrow> failure + goval option" where
  "assign ty f (CNullString s valid) =
     (if assignable_from TNullString (sf_type f) then map_sum id Some (Set f (VNullString s valid))
      else if assignable_from TString (sf_type f) then
        (if valid then map_sum id Some (SetString f s) else Inr None)
      else Inl (cannot_convert ty f))"
| "assign ty f (CNullInt64 n valid) =
     (if assignable_from TNullInt64 (sf_type f) then map_sum id Some (Set f (VNullInt64 n valid))
      else if int64_convertible_to (sf_type f) then
        (if valid then map_sum id Some (SetInt f n) else Inr None)
      else Inl (cannot_convert ty f))"
| "assign ty f (CNullFloat64 x valid) =
     (if assignable_from TNullFloat64 (sf_type f) then map_sum id Some (Set f (VNullFloat64 x valid))
      else if float64_convertible_to (sf_type f) then
        (if valid then map_sum id Some (SetFloat f x) else Inr None)
      else Inl (cannot_convert ty f))"
| "assign ty f (CBytes b) =
     (if assignable_from TBytes (sf_type f) then map_sum id Some (SetBytes f b)
      else if assignable_from TString (sf_type f) then
        map_sum id Some (SetString f (string_of_bytes b))
      else if assignable_from TNullString (sf_type f) then
        (if \<not> exported f then Inl (Panics ''reflect: value obtained using unexported field'')
         else Inr (Some (VNullString (string_of_bytes b) (\<not> is_empty_bytes b))))
      else Inl (cannot_convert ty f))"

text \<open>
  The inner loop over the columns of one row: name, reported type and scanned
  carrier of each column, in order.
\<close>

fun fill_row :: "gostruct \<Rightarrow> mapper \<Rightarrow> structval \<Rightarrow> (string \<times> string \<times> carrier) list \<Rightarrow>
    failure + structval" where
  "fill_row t m v [] = Inr v"
| "fill_row t m v ((col, ty, c) # rest) =
     (case FieldByName t (mapper_index m col) of
        None \<Rightarrow> fill_row t m v rest
      | Some f \<Rightarrow>
          (case assign ty f c of
             Inl e \<Rightarrow> Inl e
           | Inr None \<Rightarrow> fill_row t m v rest
           | Inr (Some x) \<Rightarrow> fill_row t m (set_field (sf_name f) x v) rest))"

subsection \<open>Rows and rows.Scan (database/sql)\<close>

text \<open>
  The values a row holds when \<open>rows.Next()\<close> has announced it: nil, or a value of one of
  SQLite's storage classes as the driver hands it over (\<open>int64\<close>, \<open>float64\<close>, \<open>string\<close>,
  a non-nil \<open>[]byte\<close>).
\<close>

datatype dbval = DNull | DInt64 "64 word" | DFloat64 "64 word" | DString string | DBytes "byte list"

text \<open>
  \<open>rows.Scan\<close> converts with the \<open>strconv\<close> package where the value is not of the
  carrier's own kind, and words its errors with \<open>fmt\<close>. These library functions are
  parameters of the model: the decimal form of an \<open>int64\<close>, the shortest \<open>g\<close> form of a
  \<open>float64\<close>, the two parsers (with the error as \<open>convertAssign\<close> reports it), the
  error of \<open>Scan\<close> for a column index, a column name and a cause, and its error for a
  wrong number of destinations.
\<close>

record sqllib =
  FormatInt :: "64 word \<Rightarrow> string"
  FormatFloat :: "64 word \<Rightarrow> string"
  ParseInt :: "string \<Rightarrow> error + 64 word"
  ParseFloat :: "string \<Rightarrow> error + 64 word"
  ScanError :: "nat \<Rightarrow> string \<Rightarrow> error \<Rightarrow> error"
  ArgsError :: "nat \<Rightarrow> nat \<Rightarrow> error"

fun asString :: "sqllib \<Rightarrow> dbval \<Rightarrow> string" where
  "asString lib DNull = ''<nil>''"
| "asString lib (DInt64 n) = FormatInt lib n"
| "asString lib (DFloat64 x) = FormatFloat lib x"
| "asString lib (DString s) = s"
| "asString lib (DBytes b) = string_of_bytes (Some b)"

text \<open>
  What \<open>Scan\<close> stores through one destination pointer, by the type of the carrier it
  points to. The three nullable structs scan themselves: nil makes them invalid and
  zero, any other value makes them valid and is converted to their value type (as it
  is when it has that type, through its string form otherwise). A \<open>*[]byte\<close> gets nil
  for nil, a copy of a byte slice, and the bytes of the string form of anything else.
  What the carrier held before is overwritten.
\<close>

fun convertAssign :: "sqllib \<Rightarrow> carrier \<Rightarrow> dbval \<Rightarrow> error + carrier" where
  "convertAssign lib (CNullString s0 valid0) v =
     (case v of
        DNull \<Rightarrow> Inr (CNullString [] False)
      | _ \<Rightarrow> Inr (CNullString (asString lib v) True))"
| "convertAssign lib (CNullInt64 n0 valid0) v =
     (case v of
        DNull \<Rightarrow> Inr (CNullInt64 0 False)
      | DInt64 n \<Rightarrow> Inr (CNullInt64 n True)
      | _ \<Rightarrow> (case ParseInt lib (asString lib v) of
                Inl err \<Rightarrow> Inl err
              | Inr n \<Rightarrow> Inr (CNullInt64 n True)))"
| "convertAssign lib (CNullFloat64 x0 valid0) v =
     (case v of
        DNull \<Rightarrow> Inr (CNullFloat64 0 False)
      | DFloat64 x \<Rightarrow> Inr (CNullFloat64 x True)
      | _ \<Rightarrow> (case ParseFloat lib (asString lib v) of
                Inl err \<Rightarrow> Inl err
              | Inr x \<Rightarrow> Inr (CNullFloat64 x True)))"
| "convertAssign lib (CBytes b0) v =
     (case v of
        DNull \<Rightarrow> Inr (CBytes None)
      | DBytes b \<Rightarrow> Inr (CBytes (Some b))
      | _ \<Rightarrow> Inr (CBytes (Some (bytes_of_string (asString lib v)))))"

text \<open>
  \<open>rows.Scan(cols...)\<close>: the number of destinations must be the number of values of the
  row; then the values are stored column by column, and the first failure is
  returned with the index and the name of its column.
\<close>

fun scan_cols :: "sqllib \<Rightarrow> nat \<Rightarrow> (string \<times> carrier \<times> dbval) list \<Rightarrow> error + carrier list" where
  "scan_cols lib i [] = Inr []"
| "scan_cols lib i ((col, c, v) # rest) =
     (case convertAssign lib c v of
        Inl err \<Rightarrow> Inl (ScanError lib i col err)
      | Inr c' \<Rightarrow>
          (case scan_cols lib (Suc i) rest of
             Inl err \<Rightarrow> Inl err
           | Inr cs \<Rightarrow> Inr (c' # cs)))"

definition Scan :: "sqllib \<Rightarrow> string list \<Rightarrow> carrier list \<Rightarrow> dbval list \<Rightarrow> error + carrier list" where
  "Scan lib colNames cols vals =
     (if length cols \<noteq> length vals then Inl (ArgsError lib (length vals) (length cols))
      else scan_cols lib 0 (zip colNames (zip cols vals)))"

text \<open>
  The result set as the mapper sees it: the answers of \<open>rows.Columns()\<close> and
  \<open>rows.ColumnTypes()\<close> (the \<open>DatabaseTypeName\<close> of each column), and the values of each
  row that \<open>rows.Next()\<close> announces.
\<close>

record rows =
  Columns :: "error + string list"
  ColumnTypes :: "error + string list"
  Values :: "dbval list list"

text \<open>
  The outer loop. Each row is scanned into the carriers allocated by the first loop,
  the same for every row, and the inner loop reads the carriers; the slice grows by
  one record for each row.
\<close>

fun scan_rows :: "sqllib \<Rightarrow> gostruct \<Rightarrow> mapper \<Rightarrow> string list \<Rightarrow> string list \<Rightarrow> carrier list \<Rightarrow>
    structval list \<Rightarrow> dbval list list \<Rightarrow> failure + structval list" where
  "scan_rows lib t m colNames colTypes cols acc [] = Inr acc"
| "scan_rows lib t m colNames colTypes cols acc (vals # rest) =
     (case Scan lib colNames cols vals of
        Inl err \<Rightarrow> Inl (ReturnsError err)
      | Inr cols' \<Rightarrow>
          (case fill_row t m (zero_struct t) (zip colNames (zip colTypes cols')) of
             Inl e \<Rightarrow> Inl e
           | Inr v \<Rightarrow> scan_rows lib t m colNames colTypes cols' (acc @ [v]) rest))"

text \<open>
  \<open>StructsFromRows\<close>. The destination is a pointer to a slice of records of a struct
  type: \<open>t\<close> is that struct type, \<open>None\<close> when \<open>dest\<close> is the nil interface, and \<open>dest\<close> is
  the slice it points to. The result is the failure (\<open>None\<close> for a nil error), the
  slice afterwards and the mapper cache afterwards.
\<close>

definition StructsFromRows :: "sqllib \<Rightarrow> (gostruct \<rightharpoonup> mapper) \<Rightarrow> gostruct option \<Rightarrow> structval list \<Rightarrow>
    rows \<Rightarrow> failure option \<times> structval list \<times> (gostruct \<rightharpoonup> mapper)" where
  "StructsFromRows lib tagFieldMapper t dest rs =
     (case t of
        None \<Rightarrow> (None, dest, tagFieldMapper)
      | Some t \<Rightarrow>
     (case mapper_of tagFieldMapper t of (m, cache) \<Rightarrow>
     (case Columns rs of
        Inl err \<Rightarrow> (Some (ReturnsError err), dest, cache)
      | Inr colNames \<Rightarrow>
     (case ColumnTypes rs of
        Inl err \<Rightarrow> (Some (ReturnsError err), dest, cache)
      | Inr colTypes \<Rightarrow>
     (case new_carriers (length colNames) colTypes of
        Inl e \<Rightarrow> (Some e, dest, cache)
      | Inr cols \<Rightarrow>
     (case scan_rows lib t m colNames colTypes cols [] (Values rs) of
        Inl e \<Rightarrow> (Some e, dest, cache)
      | Inr recs \<Rightarrow> (None, recs, cache)))))))"

subsection \<open>The documented type mappings\<close>

text \<open>
  The type mappings between the reported type of a column and the type of its field:
  those the comment of \<open>StructsFromRows\<close> lists (text to \<open>string\<close>, integer to a 64-bit
  signed integer or \<open>sql.NullInt64\<close>, float to \<open>float64\<close> or \<open>sql.NullFloat64\<close>, blob to
  \<open>[]byte\<close>, \<open>string\<close> or \<open>sql.NullString\<close>) and text to \<open>sql.NullString\<close>, the type
  of its carrier.
\<close>

definition compatible_type :: "string \<Rightarrow> gotype \<Rightarrow> bool" where
  "compatible_type ty ft =
     (if ty = ''text'' then ft = TString \<or> ft = TNullString
      else if ty = ''integer'' then ft = TNullInt64 \<or> (case ft of TInt nm w \<Rightarrow> w = 64 | _ \<Rightarrow> False)
      else if ty = ''float'' then ft = TFloat64 \<or> ft = TNullFloat64
      else if ty = ''blob'' then ft = TBytes \<or> ft = TString \<or> ft = TNullString
      else False)"

text \<open>A value is of the reported type of its column: nil, or of the storage class named.\<close>

definition has_type :: "string \<Rightarrow> dbval \<Rightarrow> bool" where
  "has_type ty v =
     (case v of
        DNull \<Rightarrow> True
      | DInt64 n \<Rightarrow> ty = ''integer''
      | DFloat64 x \<Rightarrow> ty = ''float''
      | DString s \<Rightarrow> ty = ''text''
      | DBytes b \<Rightarrow> ty = ''blob'')"

text \<open>
  The field value expected for a value of the result set, stated apart from the code:
  nil leaves the zero value of the field (the invalid struct, the nil slice, the empty
  string, 0); a value goes as it is into a plain field of its kind and, marked valid,
  into the nullable struct of its kind; a blob goes as it is into a \<open>[]byte\<close>, as the
  string of its bytes into a \<open>string\<close>, and into a \<open>sql.NullString\<close> as that string,
  valid exactly when it has bytes.
\<close>

fun expected :: "dbval \<Rightarrow> gotype \<Rightarrow> goval" where
  "expected (DString s) TString = VString s"
| "expected (DString s) TNullString = VNullString s True"
| "expected (DInt64 n) (TInt nm w) = VInt n"
| "expected (DInt64 n) TNullInt64 = VNullInt64 n True"
| "expected (DFloat64 x) TFloat64 = VFloat64 x"
| "expected (DFloat64 x) TNullFloat64 = VNullFloat64 x True"
| "expected (DBytes b) TBytes = VBytes (Some b)"
| "expected (DBytes b) TString = VString (string_of_bytes (Some b))"
| "expected (DBytes b) TNullString = VNullString (string_of_bytes (Some b)) (b \<noteq> [])"
| "expected v ft = zero ft"

text \<open>
  The same on the carriers, as the inner loop meets them: the field types that fit a
  carrier, and the field value expected for its content.
\<close>

fun compatible :: "carrier \<Rightarrow> gotype \<Rightarrow> bool" where
  "compatible (CNullString s valid) ft = (ft = TString \<or> ft = TNullString)"
| "compatible (CNullInt64 n valid) ft = (ft = TNullInt64 \<or> (case ft of TInt nm w \<Rightarrow> w = 64 | _ \<Rightarrow> False))"
| "compatible (CNullFloat64 x valid) ft = (ft = TFloat64 \<or> ft = TNullFloat64)"
| "compatible (CBytes b) ft = (ft = TBytes \<or> ft = TString \<or> ft = TNullString)"

fun decoded :: "carrier \<Rightarrow> gotype \<Rightarrow> goval" where
  "decoded (CNullString s valid) TNullString = VNullString s valid"
| "decoded (CNullString s valid) TString = VString (if valid then s else [])"
| "decoded (CNullInt64 n valid) TNullInt64 = VNullInt64 n valid"
| "decoded (CNullInt64 n valid) (TInt nm w) = VInt (if valid then n else 0)"
| "decoded (CNullFloat64 x valid) TNullFloat64 = VNullFloat64 x valid"
| "decoded (CNullFloat64 x valid) TFloat64 = VFloat64 (if valid then x else 0)"
| "decoded (CBytes b) TBytes = VBytes b"
| "decoded (CBytes b) TString = VString (string_of_bytes b)"
| "decoded (CBytes b) TNullString = VNullString (string_of_bytes b) (\<not> is_empty_bytes b)"
| "decoded c ft = zero ft"

text \<open>The carrier as the first loop allocates it: its kind, with the zero content.\<close>

fun blank :: "carrier \<Rightarrow> carrier" where
  "blank (CNullString s valid) = CNullString [] False"
| "blank (CNullInt64 n valid) = CNullInt64 0 False"
| "blank (CNullFloat64 x valid) = CNullFloat64 0 False"
| "blank (CBytes b) = CBytes None"

text \<open>Examples: a record type with fields of the documented kinds, and a result set.\<close>

definition example_struct :: gostruct where
  "example_struct =
     \<lparr>struct_name = ''Rec'',
      struct_fields =
        [\<lparr>sf_name = ''Id'', sf_tag = ''id'', sf_type = TInt ''int64'' 64\<rparr>,
         \<lparr>sf_name = ''Name'', sf_tag = ''name'', sf_type = TString\<rparr>,
         \<lparr>sf_name = ''Note'', sf_tag = ''note'', sf_type = TNullString\<rparr>,
         \<lparr>sf_name = ''Data'', sf_tag = ''data'', sf_type = TNullString\<rparr>]\<rparr>"

definition example_rows :: rows where
  "example_rows =
     \<lparr>Columns = Inr [''id'', ''name'', ''note'', ''data''],
      ColumnTypes = Inr [''integer'', ''text'', ''text'', ''blob''],
      Values = [[DInt64 1, DString ''a'', DNull, DBytes [1, 2]]]\<rparr>"

text \<open>The column types for which the first loop allocates a carrier.\<close>

definition supported :: "string \<Rightarrow> bool" where
  "supported ty = (ty \<in> set [''null'', ''text'', ''integer'', ''float'', ''blob''])"

text \<open>
  More examples: a result set with a column of an unknown type and one with a column
  of type \<open>null\<close>; a record type with a nullable string for a blob and a plain string
  for a text, and a result set whose first row is null in both columns and whose
  second row is empty, not null, in both.
\<close>

definition date_rows :: rows where
  "date_rows =
     \<lparr>Columns = Inr [''name'', ''born''], ColumnTypes = Inr [''text'', ''date''],
      Values = [[DString ''a'', DString ''2017-01-01'']]\<rparr>"

definition null_rows :: rows where
  "null_rows =
     \<lparr>Columns = Inr [''name''], ColumnTypes = Inr [''null''],
      Values = [[DNull]]\<rparr>"

definition doc_struct :: gostruct where
  "doc_struct =
     \<lparr>struct_name = ''Doc'',
      struct_fields =
        [\<lparr>sf_name = ''Data'', sf_tag = ''data'', sf_type = TNullString\<rparr>,
         \<lparr>sf_name = ''Title'', sf_tag = ''title'', sf_type = TString\<rparr>]\<rparr>"

definition doc_rows :: rows where
  "doc_rows =
     \<lparr>Columns = Inr [''data'', ''title''], ColumnTypes = Inr [''blob'', ''text''],
      Values = [[DNull, DNull], [DBytes [], DString []]]\<rparr>"

section \<open>Properties of the registry\<close>

lemma next_db_logf [simp]: "next_db (logf l m s) = next_db s" 
  and dbMap_logf [simp]: "dbMap (logf l m s) = dbMap s"
  and finalizers_logf [simp]: "finalizers (logf l m s) = finalizers s"
  by (simp_all add: logf_def)

lemma locked_cases:
  assumes "dbVersionForID_locked cfg ev k s = (r, s')"
  shows "(dbMap s' = dbMap s \<and> next_db s \<le> next_db s' \<and> (snd r \<noteq> None))
       \<or> (snd r = None \<and> fst r = Some (next_db s) \<and> next_db s' = Suc (next_db s)
           \<and> dbMap s' = (dbMap s)(k \<mapsto> Some \<lparr>db = Some (next_db s), closed = (if debug cfg then Some (next_chan s) else None)\<rparr>))"
  using assms
  by (auto simp: dbVersionForID_locked_def Let_def logf_def split: option.splits if_splits)

lemma registry_inv_same_map:
  assumes "registry_inv s" "dbMap s' = dbMap s" "next_db s \<le> next_db s'"
  shows "registry_inv s'"
  unfolding registry_inv_def
proof (intro allI impI)
  fix k i assume "dbMap s' k = Some (Some i)"
  then have "dbMap s k = Some (Some i)" using assms(2) by simp
  then have "\<exists>h. db i = Some h \<and> h < next_db s"
    using assms(1) by (simp add: registry_inv_def)
  then show "\<exists>h. db i = Some h \<and> h < next_db s'"
    using assms(3) by auto
qed

lemma registry_inv_insert:
  assumes "registry_inv s" "next_db s' = Suc (next_db s)"
    "dbMap s' = (dbMap s)(k \<mapsto> Some \<lparr>db = Some (next_db s), closed = (if debug cfg then Some c else None)\<rparr>)"
  shows "registry_inv s'"
  unfolding registry_inv_def
proof (intro allI impI)
  fix k' i assume a: "dbMap s' k' = Some (Some i)"
  show "\<exists>h. db i = Some h \<and> h < next_db s'"
  proof (cases "k' = k")
    case True
    then have "i = \<lparr>db = Some (next_db s), closed = (if debug cfg then Some c else None)\<rparr>"
      using a assms(3) by simp
    then show ?thesis using assms(2) by simp
  next
    case False
    then have "dbMap s k' = Some (Some i)" using a assms(3) by simp
    then have "\<exists>h. db i = Some h \<and> h < next_db s"
      using assms(1) by (simp add: registry_inv_def)
    then show ?thesis using assms(2) by auto
  qed
qed

lemma registry_inv_locked:
  assumes "registry_inv s" "dbVersionForID_locked cfg ev k s = (r, s')"
  shows "registry_inv s'"
  using locked_cases[OF assms(2)] registry_inv_same_map[OF assms(1)] registry_inv_insert[OF assms(1)]
  by blast

lemma registry_inv_get:
  assumes "registry_inv s" "dbVersionForID cfg ev dbid version s = (r, s')"
  shows "registry_inv s'"
  using assms registry_inv_locked
  by (auto simp: dbVersionForID_def Let_def split: option.splits)

lemma registry_inv_remove:
  assumes "registry_inv s" "next_db s' = next_db s"
    "dbMap s' = (dbMap s)(k := v)" "v = None \<or> v = Some None"
  shows "registry_inv s'"
  unfolding registry_inv_def
proof (intro allI impI)
  fix k' i assume a: "dbMap s' k' = Some (Some i)"
  then have "k' \<noteq> k" using assms(3,4) by auto
  then have "dbMap s k' = Some (Some i)" using a assms(3) by simp
  then have "\<exists>h. db i = Some h \<and> h < next_db s"
    using assms(1) by (simp add: registry_inv_def)
  then show "\<exists>h. db i = Some h \<and> h < next_db s'"
    using assms(2) by auto
qed

lemma release_cases:
  assumes "ReleaseDBForID cfg dbid version s = Some s'"
  shows "(dbMap s' = dbMap s \<and> next_db s' = next_db s \<and> live_db (dbMap_index s (VersionedDBID dbid version)) = None)
       \<or> (next_db s' = next_db s \<and> dbMap s' = (dbMap s)(VersionedDBID dbid version \<mapsto> None)
            \<and> live_db (dbMap_index s (VersionedDBID dbid version)) \<noteq> None)"
  using assms
  by (auto simp: ReleaseDBForID_def Let_def logf_def live_db_def split: option.splits if_splits)

lemma registry_inv_release:
  assumes "registry_inv s" "ReleaseDBForID cfg dbid version s = Some s'"
  shows "registry_inv s'"
  using release_cases[OF assms(2)] registry_inv_same_map[OF assms(1), of s']
    registry_inv_remove[OF assms(1), of s' "VersionedDBID dbid version" "Some None"]
  by auto

lemma registry_inv_Delete:
  assumes "registry_inv s"
  shows "registry_inv (Delete k ce re s)"
  by (rule registry_inv_remove[OF assms, of _ k None])
     (auto simp: Delete_def Let_def split: option.splits)

lemma registry_inv_empty: "registry_inv empty_registry"
  by (simp add: registry_inv_def empty_registry_def)

lemma reachable_inv: "reachable s \<Longrightarrow> registry_inv s"
  by (induction rule: reachable.induct)
     (auto intro: registry_inv_empty registry_inv_get registry_inv_locked registry_inv_release
       registry_inv_Delete)

lemma caller_steps_sequential:
  "run cfg ev [0, 0] ([Start dbid version], s) =
     (case dbVersionForID cfg ev dbid version s of (r, s') \<Rightarrow> ([Returned r], s'))"
  by (simp add: dbVersionForID_def Let_def split: option.splits prod.splits)

text \<open>
  C5. An explicit identity equal to the reserved identity \<open>common\<close>, or an explicit
  version equal to the reserved version \<open>base\<close>, makes \<open>DBForID\<close>, \<open>DBVersion\<close> and
  \<open>DBVersionForID\<close> return no handle and an error and leave the registry as it was;
  \<open>DB\<close>, \<open>DBForID\<close> and \<open>DBVersion\<close> pass the reserved values on as their implicit
  components, where they are accepted: on the empty registry \<open>DB\<close> creates a handle.
\<close>

theorem reserved_sentinels_rejected:
  "DBForID cfg ev commonDBID s = ((None, Some (Err ''reserved ID: common'')), s)
   \<and> DBVersion cfg ev commonDBVersion s = ((None, Some (Err ''reserved version: base'')), s)
   \<and> DBVersionForID cfg ev commonDBID version s = ((None, Some (Err ''reserved ID: common'')), s)
   \<and> (\<exists>e. DBVersionForID cfg ev dbid commonDBVersion s = ((None, Some e), s))
   \<and> DB cfg ev s = dbVersionForID cfg ev commonDBID commonDBVersion s
   \<and> DBForID cfg ev ''org1'' s = dbVersionForID cfg ev ''org1'' commonDBVersion s
   \<and> DBVersion cfg ev ''1.0'' s = dbVersionForID cfg ev commonDBID ''1.0'' s
   \<and> fst (DB cfg env_ok empty_registry) = (Some 0, None)"
proof -
  have "fst (DB cfg env_ok empty_registry) = (Some 0, None)"
    by (simp add: DB_def dbVersionForID_def dbVersionForID_locked_def Let_def
        empty_registry_def dbMap_index_def live_db_def env_ok_def logf_def)
  then show ?thesis
    by (simp add: DBForID_def DBVersion_def DBVersionForID_def DB_def commonDBID_def
        commonDBVersion_def)
qed

text \<open>
  C8. The map from (identity, version) to the versioned key is not injective: the
  pairs (\<open>a/b\<close>, \<open>c\<close>) and (\<open>a\<close>, \<open>b/c\<close>) give the key \<open>a/b/c\<close>, and an empty
  component gives the other component alone. Such pairs have one path on disk and one
  registry entry: the second pair is answered with the handle created for the first,
  and the registry does not change.
\<close>

theorem VersionedDBID_not_injective:
  "\<not> inj (\<lambda>(dbid, version). VersionedDBID dbid version)
   \<and> VersionedDBID ''a/b'' ''c'' = ''a/b/c'' \<and> VersionedDBID ''a'' ''b/c'' = ''a/b/c''
   \<and> VersionedDBID [] ''x'' = ''x'' \<and> VersionedDBID ''x'' [] = ''x''
   \<and> DBPath example_config (VersionedDBID ''a/b'' ''c'') = ''/var/apid/sqlite/a/b/c/sqlite3''
   \<and> DBPath example_config (VersionedDBID ''a'' ''b/c'') = ''/var/apid/sqlite/a/b/c/sqlite3''
   \<and> fst (DBVersionForID cfg env_ok ''a/b'' ''c'' empty_registry) = (Some 0, None)
   \<and> DBVersionForID cfg env_ok ''a'' ''b/c''
        (snd (DBVersionForID cfg env_ok ''a/b'' ''c'' empty_registry))
      = ((Some 0, None), snd (DBVersionForID cfg env_ok ''a/b'' ''c'' empty_registry))"
proof -
  have keys: "VersionedDBID ''a/b'' ''c'' = ''a/b/c''" "VersionedDBID ''a'' ''b/c'' = ''a/b/c''"
    "VersionedDBID [] ''x'' = ''x''" "VersionedDBID ''x'' [] = ''x''"
    by (simp_all add: VersionedDBID_def Join_def Clean_def clean_comp_def)
  have same: "(\<lambda>(dbid, version). VersionedDBID dbid version) (''a/b'', ''c'')
        = (\<lambda>(dbid, version). VersionedDBID dbid version) (''a'', ''b/c'')"
    by (simp add: keys)
  have ninj: "\<not> inj (\<lambda>(dbid, version). VersionedDBID dbid version)"
  proof
    assume i: "inj (\<lambda>(dbid, version). VersionedDBID dbid version)"
    have "(''a/b'', ''c'') = (''a'', ''b/c'')"
      by (rule injD [OF i same])
    then show False by simp
  qed
  have paths: "DBPath example_config ''a/b/c'' = ''/var/apid/sqlite/a/b/c/sqlite3''"
    by (simp add: Join_def Clean_def clean_comp_def DBPath_def example_config_def
        configDataPathKey_def)
  have shared: "fst (DBVersionForID cfg env_ok ''a/b'' ''c'' empty_registry) = (Some 0, None)
     \<and> DBVersionForID cfg env_ok ''a'' ''b/c''
        (snd (DBVersionForID cfg env_ok ''a/b'' ''c'' empty_registry))
      = ((Some 0, None), snd (DBVersionForID cfg env_ok ''a/b'' ''c'' empty_registry))"
    by (simp add: keys DBVersionForID_def commonDBID_def commonDBVersion_def dbVersionForID_def
        dbVersionForID_locked_def Let_def empty_registry_def dbMap_index_def live_db_def
        env_ok_def logf_def)
  show ?thesis using ninj shared by (simp add: keys paths)
qed

text \<open>
  C10. When the lookup misses, the directory is made and the pool is opened, a failure of
  the ping or of either pragma makes \<open>dbVersionForID\<close> return an error together with a
  handle, the one allocated before the ping, and \<open>dbMap\<close> is left as it was.
\<close>

theorem failed_creation_returns_handle_and_error:
  assumes "live_db (dbMap_index s (VersionedDBID dbid version)) = None"
    and "mkdir_err ev = None" and "open_err ev = None"
    and "ping_err ev \<noteq> None \<or> wal_err ev \<noteq> None \<or> fk_err ev \<noteq> None"
  shows "\<exists>e s'. dbVersionForID cfg ev dbid version s = ((Some (next_db s), Some e), s')
           \<and> dbMap s' = dbMap s
           \<and> e \<in> set_option (ping_err ev) \<union> set_option (wal_err ev) \<union> set_option (fk_err ev)"
  using assms
  by (auto simp: dbVersionForID_def dbVersionForID_locked_def Let_def split: option.splits)

theorem failed_creation_returns_handle_and_error_witness:
  "\<exists>s'. dbVersionForID example_config (env_ok\<lparr>wal_err := Some (Err ''disk I/O error'')\<rparr>)
           ''org1'' ''1.0'' empty_registry = ((Some 0, Some (Err ''disk I/O error'')), s')
        \<and> dbMap s' = Map.empty"
  using failed_creation_returns_handle_and_error
    [of empty_registry "''org1''" "''1.0''" "env_ok\<lparr>wal_err := Some (Err ''disk I/O error'')\<rparr>"
      example_config]
  by (simp add: env_ok_def empty_registry_def dbMap_index_def live_db_def)

lemma example_registry_reachable: "reachable example_registry"
  unfolding example_registry_def
  by (rule reach_get [OF reach_empty, of example_config env_ok "''org1''" "''1.0''"
        "fst (dbVersionForID example_config env_ok ''org1'' ''1.0'' empty_registry)"]) simp

lemma live_db_Some:
  "live_db (dbMap_index s k) = Some h \<Longrightarrow> \<exists>i. dbMap s k = Some (Some i) \<and> db i = Some h"
  by (auto simp: live_db_def dbMap_index_def split: option.splits)

text \<open>
  What a release does when it returns. In a reachable registry with an entry \<open>i\<close> and
  handle \<open>h\<close> under a key, a release under a configuration for which the entry has its
  stop channel (debug logging off, or the channel made at creation) returns and leaves
  the key without entry; the next lookup of the key, under any configuration, takes
  the creation path, never returns \<open>h\<close>, and when it succeeds it returns the newly
  allocated handle, which it has stored under the key.
\<close>

lemma release_then_get_is_fresh:
  assumes "reachable s"
    and "dbMap s (VersionedDBID dbid version) = Some (Some i)" and "db i = Some h"
    and "debug cfg \<longrightarrow> closed i \<noteq> None"
  shows "\<exists>s'. ReleaseDBForID cfg dbid version s = Some s'
           \<and> dbMap_index s' (VersionedDBID dbid version) = None
           \<and> h < next_db s'
           \<and> (\<forall>cfg' ev. dbVersionForID cfg' ev dbid version s'
                    = dbVersionForID_locked cfg' ev (VersionedDBID dbid version) s')
           \<and> (\<forall>cfg' ev r s''. dbVersionForID cfg' ev dbid version s' = (r, s'') \<longrightarrow>
                 fst r \<noteq> Some h
                 \<and> (snd r = None \<longrightarrow>
                      fst r = Some (next_db s')
                      \<and> live_db (dbMap_index s'' (VersionedDBID dbid version)) = Some (next_db s')))"
proof -
  let ?k = "VersionedDBID dbid version"
  have live: "live_db (dbMap_index s ?k) = Some h"
    using assms(2,3) by (simp add: live_db_def dbMap_index_def)
  have inv: "registry_inv s" using assms(1) by (rule reachable_inv)
  have "\<exists>h. db i = Some h \<and> h < next_db s"
    using inv assms(2) unfolding registry_inv_def by blast
  then have h: "h < next_db s" using assms(3) by auto
  have "ReleaseDBForID cfg dbid version s \<noteq> None"
    using assms(2,3,4)
    by (cases "closed i") (simp_all add: ReleaseDBForID_def dbMap_index_def Let_def)
  then obtain s' where rel: "ReleaseDBForID cfg dbid version s = Some s'"
    by auto
  have s': "next_db s' = next_db s" "dbMap s' = (dbMap s)(?k \<mapsto> None)"
    using release_cases [OF rel] live by auto
  have cleared: "dbMap_index s' ?k = None"
    by (simp add: dbMap_index_def s')
  have through: "dbVersionForID cfg' ev dbid version s' = dbVersionForID_locked cfg' ev ?k s'"
    for cfg' ev
    by (simp add: dbVersionForID_def Let_def cleared live_db_def)
  have fresh: "fst r \<noteq> Some h \<and> (snd r = None \<longrightarrow> fst r = Some (next_db s')
        \<and> live_db (dbMap_index s'' ?k) = Some (next_db s'))"
    if "dbVersionForID cfg' ev dbid version s' = (r, s'')" for cfg' ev r s''
  proof -
    have l: "dbVersionForID_locked cfg' ev ?k s' = (r, s'')" using that through by simp
    have "fst r = None \<or> fst r = Some (next_db s')"
      using l by (auto simp: dbVersionForID_locked_def Let_def split: option.splits)
    then have a: "fst r \<noteq> Some h" using h s' by auto
    have b: "fst r = Some (next_db s') \<and> live_db (dbMap_index s'' ?k) = Some (next_db s')"
      if "snd r = None"
      using locked_cases [OF l] that by (auto simp: live_db_def dbMap_index_def)
    show ?thesis using a b by blast
  qed
  have "h < next_db s'" using h s'(1) by simp
  with rel cleared through fresh show ?thesis by blast
qed

text \<open>
  C6. \<open>ReleaseDBForID\<close> reads the log level when it is called, \<open>dbVersionForID\<close> when it
  creates. The handle of (\<open>org1\<close>, \<open>1.0\<close>) is created with debug logging off, so its
  entry has no stop channel. Released with debug logging off, the key is left without
  entry and the next access creates handle 1. Released after the log level was set to
  debug, the call sends on the nil channel and never returns: the entry is not
  cleared (and the write lock is not given back).
\<close>

theorem release_blocks_after_debug_switch:
  "live_db (dbMap_index example_registry (VersionedDBID ''org1'' ''1.0'')) = Some 0
   \<and> dbMap example_registry (VersionedDBID ''org1'' ''1.0'') = Some (Some \<lparr>db = Some 0, closed = None\<rparr>)
   \<and> ReleaseDBForID (example_config\<lparr>debug := True\<rparr>) ''org1'' ''1.0'' example_registry = None
   \<and> (case ReleaseDBForID example_config ''org1'' ''1.0'' example_registry of
         None \<Rightarrow> False
       | Some s' \<Rightarrow> dbMap_index s' (VersionedDBID ''org1'' ''1.0'') = None
           \<and> fst (dbVersionForID example_config env_ok ''org1'' ''1.0'' s') = (Some 1, None))"
proof -
  have k: "VersionedDBID ''org1'' ''1.0'' = ''org1/1.0''"
    by (simp add: VersionedDBID_def Join_def Clean_def clean_comp_def)
  show ?thesis
    by (simp add: k example_registry_def dbVersionForID_def dbVersionForID_locked_def
        ReleaseDBForID_def Let_def empty_registry_def dbMap_index_def live_db_def env_ok_def
        logf_def example_config_def)
qed

text \<open>
  C1. \<open>dbVersionForID\<close> does not read \<open>dbMap\<close> again under the write lock. When two
  first callers for one key both finish their read-locked lookup before either
  creates, each of them creates a handle: the first gets handle 0, the second
  handle 1, which replaces the first in \<open>dbMap\<close>. One caller after the other gives
  both the same handle.
\<close>

theorem concurrent_first_access_creates_two_handles:
  "fst (run example_config env_ok [0, 1, 0, 1]
          ([Start ''org1'' ''1.0'', Start ''org1'' ''1.0''], empty_registry))
     = [Returned (Some 0, None), Returned (Some 1, None)]
   \<and> next_db (snd (run example_config env_ok [0, 1, 0, 1]
          ([Start ''org1'' ''1.0'', Start ''org1'' ''1.0''], empty_registry))) = 2
   \<and> live_db (dbMap_index (snd (run example_config env_ok [0, 1, 0, 1]
          ([Start ''org1'' ''1.0'', Start ''org1'' ''1.0''], empty_registry)))
        (VersionedDBID ''org1'' ''1.0'')) = Some 1
   \<and> fst (run example_config env_ok [0, 0, 1, 1]
          ([Start ''org1'' ''1.0'', Start ''org1'' ''1.0''], empty_registry))
     = [Returned (Some 0, None), Returned (Some 0, None)]"
  by (simp add: dbVersionForID_locked_def Let_def empty_registry_def dbMap_index_def
      live_db_def env_ok_def logf_def VersionedDBID_def Join_def Clean_def clean_comp_def
      example_config_def)

section \<open>Properties of transactions\<close>







lemma distinct_in_flight: "distinct (in_flight st d)"
  by (simp add: in_flight_def)














section \<open>Properties of the tracing connection\<close>

lemma added_emit [simp]:
  "added c (emit l f m as c) = [\<lparr>lvl = l, with_field = f, fmt = m, fargs = as\<rparr>]"
  and added_emit2 [simp]:
  "added c (emit l' f' m' as' (emit l f m as c))
     = [\<lparr>lvl = l, with_field = f, fmt = m, fargs = as\<rparr>, \<lparr>lvl = l', with_field = f', fmt = m', fargs = as'\<rparr>]"
  by (simp_all add: added_def emit_def)

lemma added_emit_counter [simp]:
  "added c (emit l' f' m' as' (emit l f m as (c\<lparr>stmtCounter := n\<rparr>)))
     = [\<lparr>lvl = l, with_field = f, fmt = m, fargs = as\<rparr>, \<lparr>lvl = l', with_field = f', fmt = m', fargs = as'\<rparr>]"
  "added c (emit l' f' m' as' (emit l f m as (c\<lparr>txCounter := n\<rparr>)))
     = [\<lparr>lvl = l, with_field = f, fmt = m, fargs = as\<rparr>, \<lparr>lvl = l', with_field = f', fmt = m', fargs = as'\<rparr>]"
  by (simp_all add: added_def emit_def)

lemma sibling_failures_logged_at_error:
  "fst (Prepare query (Inl err) c) = Inl err
   \<and> errors_logged c (snd (Prepare query (Inl err) c)) = [err]
   \<and> fst (wrapConn_Begin (Inl err) c) = Inl err
   \<and> errors_logged c (snd (wrapConn_Begin (Inl err) c)) = [err]
   \<and> fst (Close (Some err) c) = Some err
   \<and> errors_logged c (snd (Close (Some err) c)) = [err]"
  by (simp add: Prepare_def wrapConn_Begin_def Close_def Let_def errors_logged_def)

text \<open>
  C3. When the engine fails a direct query with \<open>err\<close>, \<open>Query\<close> returns the engine's
  pair unchanged, but the two lines it writes are both at debug severity: nothing is
  logged at error severity. (\<open>Prepare\<close>, \<open>Begin\<close> and \<open>Close\<close> do log the failure at
  error severity, see \<open>sibling_failures_logged_at_error\<close>.)
\<close>

theorem Query_failure_logged_at_debug:
  "fst (Query query args (rows, Some err) c) = (rows, Some err)
   \<and> added c (snd (Query query args (rows, Some err) c))
       = [\<lparr>lvl = Debug, with_field = None, fmt = ''begin query: %s args: %#v'',
            fargs = [AStr query, AArgs args]\<rparr>,
          \<lparr>lvl = Debug, with_field = None, fmt = ''query failed: %s'', fargs = [AErr err]\<rparr>]
   \<and> errors_logged c (snd (Query query args (rows, Some err) c)) = []"
  by (simp add: Query_def Let_def errors_logged_def)

section \<open>Properties of the result-set mapper\<close>

lemma signed_take_bit_63: "signed_take_bit 63 (x :: 64 word) = x"
proof (rule bit_word_eqI)
  fix n assume "n < LENGTH(64)"
  then have "n \<le> 63" by simp
  then have "min 63 n = n" by simp
  then show "bit (signed_take_bit 63 x) n \<longleftrightarrow> bit x n"
    using \<open>n < LENGTH(64)\<close> by (simp add: bit_signed_take_bit_iff)
qed

lemma byte_char_roundtrip: "of_nat (of_char (char_of (unat (x :: byte)))) = x"
proof -
  have "unat x < 256" using unsigned_less [of x, where 'a = nat] by simp
  then have "of_char (char_of (unat x)) = unat x" by simp
  then show ?thesis by simp
qed

lemma bytes_of_string_of_bytes: "bytes_of_string (string_of_bytes (Some bs)) = bs"
  by (simp add: bytes_of_string_def string_of_bytes_def comp_def byte_char_roundtrip del: of_char_of)


lemma FieldByName_Some:
  "FieldByName t n = Some f \<Longrightarrow> f \<in> set (struct_fields t) \<and> sf_name f = n"
  by (auto simp: FieldByName_def find_Some_iff)

lemma build_mapper_aux:
  "foldl (\<lambda>m f. if sf_tag f \<noteq> [] then m(sf_tag f \<mapsto> sf_name f) else m) m0 fs col = Some n \<Longrightarrow>
     m0 col = Some n \<or> (\<exists>f \<in> set fs. sf_tag f = col \<and> sf_name f = n)"
  by (induction fs arbitrary: m0) (fastforce split: if_splits)+

lemma build_mapper_Some:
  "build_mapper t col = Some n \<Longrightarrow> \<exists>f \<in> set (struct_fields t). sf_tag f = col \<and> sf_name f = n"
  using build_mapper_aux [of Map.empty "struct_fields t" col n] by (simp add: build_mapper_def)

text \<open>A struct type is well formed when its field names are distinct and not empty.\<close>

lemma targets_differ:
  assumes d: "distinct (map sf_name (struct_fields t))"
    and ne: "[] \<notin> sf_name ` set (struct_fields t)"
    and c: "col1 \<noteq> col2"
    and f1: "FieldByName t (mapper_index (build_mapper t) col1) = Some f1"
    and f2: "FieldByName t (mapper_index (build_mapper t) col2) = Some f2"
  shows "sf_name f1 \<noteq> sf_name f2"
proof
  assume eq: "sf_name f1 = sf_name f2"
  have n1: "f1 \<in> set (struct_fields t)" "sf_name f1 = mapper_index (build_mapper t) col1"
    using FieldByName_Some [OF f1] by auto
  have n2: "f2 \<in> set (struct_fields t)" "sf_name f2 = mapper_index (build_mapper t) col2"
    using FieldByName_Some [OF f2] by auto
  have "sf_name f1 \<noteq> []" "sf_name f2 \<noteq> []" using n1(1) n2(1) ne by (metis image_eqI)+
  then have m1: "build_mapper t col1 = Some (sf_name f1)"
    and m2: "build_mapper t col2 = Some (sf_name f2)"
    using n1(2) n2(2) by (auto simp: mapper_index_def split: option.splits)
  obtain g1 where g1: "g1 \<in> set (struct_fields t)" "sf_tag g1 = col1" "sf_name g1 = sf_name f1"
    using build_mapper_Some [OF m1] by blast
  obtain g2 where g2: "g2 \<in> set (struct_fields t)" "sf_tag g2 = col2" "sf_name g2 = sf_name f2"
    using build_mapper_Some [OF m2] by blast
  have inj: "inj_on sf_name (set (struct_fields t))" using d by (simp add: distinct_map)
  have "sf_name g1 = sf_name g2" using g1(3) g2(3) eq by simp
  then have "g1 = g2" using inj g1(1) g2(1) by (meson inj_onD)
  then show False using g1(2) g2(2) c by simp
qed

lemma assign_compatible:
  assumes "exported f" "compatible c (sf_type f)"
  shows "\<exists>w. assign ty f c = Inr w
           \<and> (case w of Some x \<Rightarrow> x = decoded c (sf_type f)
                       | None \<Rightarrow> decoded c (sf_type f) = zero (sf_type f))"
proof (cases c)
  case (CNullString s valid)
  then show ?thesis using assms
    by (auto simp: assignable_from_def Set_def SetString_def)
next
  case (CNullInt64 n valid)
  then show ?thesis using assms
    by (auto simp: assignable_from_def Set_def SetInt_def signed_take_bit_63 split: gotype.splits)
next
  case (CNullFloat64 x valid)
  then show ?thesis using assms
    by (auto simp: assignable_from_def Set_def SetFloat_def)
next
  case (CBytes b)
  then show ?thesis using assms
    by (auto simp: assignable_from_def SetBytes_def SetString_def)
qed

lemma set_field_Nil: "set_field n x [] = []"
  by (simp add: set_field_def)

lemma set_field_Cons:
  "set_field n x ((k, y) # v) = (if k = n then (k, x) else (k, y)) # set_field n x v"
  by (simp add: set_field_def)

lemma map_fst_set_field [simp]: "map fst (set_field n x v) = map fst v"
proof (induction v)
  case Nil
  show ?case by (simp add: set_field_Nil)
next
  case (Cons a v)
  obtain k y where a: "a = (k, y)" by (cases a) auto
  show ?case using Cons.IH by (simp add: a set_field_Cons)
qed

lemma map_of_set_field:
  "map_of (set_field n x v) k = (if k = n \<and> n \<in> fst ` set v then Some x else map_of v k)"
proof (induction v)
  case Nil
  show ?case by (simp add: set_field_Nil)
next
  case (Cons a v)
  obtain k' y where a: "a = (k', y)" by (cases a) auto
  show ?case
  proof (cases "k = n")
    case True
    have "map_of (set_field n x v) n = (if n \<in> fst ` set v then Some x else map_of v n)"
      using Cons.IH True by simp
    then show ?thesis using True by (cases "k' = n") (simp_all add: a set_field_Cons)
  next
    case False
    have "map_of (set_field n x v) k = map_of v k"
      using Cons.IH False by simp
    then show ?thesis using False by (cases "k' = n") (simp_all add: a set_field_Cons)
  qed
qed

lemma map_of_zero_struct:
  assumes "distinct (map sf_name (struct_fields t))" "f \<in> set (struct_fields t)"
  shows "map_of (zero_struct t) (sf_name f) = Some (zero (sf_type f))"
proof -
  have "distinct (map fst (zero_struct t))"
    using assms(1) by (simp add: zero_struct_def comp_def)
  moreover have "(sf_name f, zero (sf_type f)) \<in> set (zero_struct t)"
    using assms(2) by (auto simp: zero_struct_def)
  ultimately show ?thesis by simp
qed

text \<open>
  The columns of one row, when they aim at different fields and each cell fits its
  field: the row loop succeeds, keeps the fields no column aims at, and gives each
  field that was still zero the expected value of its column.
\<close>

lemma fill_row_compatible:
  assumes "distinct (map fst cs)"
    and "\<forall>col1 col2 f1 f2. col1 \<noteq> col2 \<longrightarrow> FieldByName t (mapper_index m col1) = Some f1 \<longrightarrow>
           FieldByName t (mapper_index m col2) = Some f2 \<longrightarrow> sf_name f1 \<noteq> sf_name f2"
    and "\<forall>col ty c f. (col, ty, c) \<in> set cs \<longrightarrow> FieldByName t (mapper_index m col) = Some f \<longrightarrow>
           exported f \<and> compatible c (sf_type f)"
  shows "\<exists>v'. fill_row t m v cs = Inr v' \<and> map fst v' = map fst v
     \<and> (\<forall>n. (\<forall>col ty c f. (col, ty, c) \<in> set cs \<longrightarrow>
                 FieldByName t (mapper_index m col) = Some f \<longrightarrow> sf_name f \<noteq> n) \<longrightarrow>
              map_of v' n = map_of v n)
     \<and> (\<forall>col ty c f. (col, ty, c) \<in> set cs \<longrightarrow> FieldByName t (mapper_index m col) = Some f \<longrightarrow>
            map_of v (sf_name f) = Some (zero (sf_type f)) \<longrightarrow>
            map_of v' (sf_name f) = Some (decoded c (sf_type f)))"
  using assms
proof (induction cs arbitrary: v)
  case Nil
  then show ?case by simp
next
  case (Cons a cs)
  obtain col ty c where a: "a = (col, ty, c)" by (cases a) auto
  have dist: "distinct (map fst cs)" and notin: "col \<notin> fst ` set cs"
    using Cons.prems(1) a by auto
  have good: "\<forall>col ty c f. (col, ty, c) \<in> set cs \<longrightarrow> FieldByName t (mapper_index m col) = Some f \<longrightarrow>
           exported f \<and> compatible c (sf_type f)"
    using Cons.prems(3) by auto
  note IH = Cons.IH [OF dist Cons.prems(2) good]
  show ?case
  proof (cases "FieldByName t (mapper_index m col)")
    case None
    obtain v' where v': "fill_row t m v cs = Inr v'" "map fst v' = map fst v"
      "\<forall>n. (\<forall>col ty c f. (col, ty, c) \<in> set cs \<longrightarrow>
                 FieldByName t (mapper_index m col) = Some f \<longrightarrow> sf_name f \<noteq> n) \<longrightarrow>
              map_of v' n = map_of v n"
      "\<forall>col ty c f. (col, ty, c) \<in> set cs \<longrightarrow> FieldByName t (mapper_index m col) = Some f \<longrightarrow>
            map_of v (sf_name f) = Some (zero (sf_type f)) \<longrightarrow>
            map_of v' (sf_name f) = Some (decoded c (sf_type f))"
      using IH [where v = v] by blast
    have "fill_row t m v (a # cs) = Inr v'" using None v'(1) a by simp
    moreover have "\<forall>n. (\<forall>col ty c f. (col, ty, c) \<in> set (a # cs) \<longrightarrow>
                 FieldByName t (mapper_index m col) = Some f \<longrightarrow> sf_name f \<noteq> n) \<longrightarrow>
              map_of v' n = map_of v n"
      using v'(3) None a by auto
    moreover have "\<forall>col ty c f. (col, ty, c) \<in> set (a # cs) \<longrightarrow>
            FieldByName t (mapper_index m col) = Some f \<longrightarrow>
            map_of v (sf_name f) = Some (zero (sf_type f)) \<longrightarrow>
            map_of v' (sf_name f) = Some (decoded c (sf_type f))"
      using v'(4) None a by auto
    ultimately show ?thesis using v'(2) by blast
  next
    case (Some f)
    have fc: "exported f" "compatible c (sf_type f)"
      using Cons.prems(3) Some a by auto
    obtain w where w: "assign ty f c = Inr w"
      "case w of Some x \<Rightarrow> x = decoded c (sf_type f) | None \<Rightarrow> decoded c (sf_type f) = zero (sf_type f)"
      using assign_compatible [OF fc] by blast
    define v1 where "v1 = (case w of None \<Rightarrow> v | Some x \<Rightarrow> set_field (sf_name f) x v)"
    have step: "fill_row t m v (a # cs) = fill_row t m v1 cs"
      using Some w(1) a by (simp add: v1_def split: option.splits)
    have keys1: "map fst v1 = map fst v" by (simp add: v1_def split: option.splits)
    have other: "map_of v1 n = map_of v n" if "n \<noteq> sf_name f" for n
      using that by (simp add: v1_def map_of_set_field split: option.splits)
    have head: "map_of v1 (sf_name f) = Some (decoded c (sf_type f))"
      if "map_of v (sf_name f) = Some (zero (sf_type f))"
    proof (cases w)
      case None
      then show ?thesis using w(2) that by (simp add: v1_def)
    next
      case (Some x)
      have "sf_name f \<in> fst ` set v" using that by (metis domI dom_map_of_conv_image_fst)
      then show ?thesis using Some w(2) by (simp add: v1_def map_of_set_field)
    qed
    have rest_differ: "sf_name g \<noteq> sf_name f"
      if "(col', ty', c') \<in> set cs" "FieldByName t (mapper_index m col') = Some g" for col' ty' c' g
    proof -
      have "col' \<noteq> col" using that(1) notin by force
      then show ?thesis using Cons.prems(2) that(2) Some by blast
    qed
    obtain v' where v': "fill_row t m v1 cs = Inr v'" "map fst v' = map fst v1"
      "\<forall>n. (\<forall>col ty c f. (col, ty, c) \<in> set cs \<longrightarrow>
                 FieldByName t (mapper_index m col) = Some f \<longrightarrow> sf_name f \<noteq> n) \<longrightarrow>
              map_of v' n = map_of v1 n"
      "\<forall>col ty c f. (col, ty, c) \<in> set cs \<longrightarrow> FieldByName t (mapper_index m col) = Some f \<longrightarrow>
            map_of v1 (sf_name f) = Some (zero (sf_type f)) \<longrightarrow>
            map_of v' (sf_name f) = Some (decoded c (sf_type f))"
      using IH [where v = v1] by blast
    have r1: "fill_row t m v (a # cs) = Inr v'" using step v'(1) by simp
    have r2: "map fst v' = map fst v" using v'(2) keys1 by simp
    have r3: "map_of v' n = map_of v n"
      if "\<forall>col ty c f. (col, ty, c) \<in> set (a # cs) \<longrightarrow>
                 FieldByName t (mapper_index m col) = Some f \<longrightarrow> sf_name f \<noteq> n" for n
    proof -
      have "n \<noteq> sf_name f" using that Some a by auto
      moreover have "\<forall>col ty c f. (col, ty, c) \<in> set cs \<longrightarrow>
                 FieldByName t (mapper_index m col) = Some f \<longrightarrow> sf_name f \<noteq> n"
        using that by simp
      then have "map_of v' n = map_of v1 n" using v'(3) by blast
      ultimately show ?thesis using other by simp
    qed
    have r4: "map_of v' (sf_name g) = Some (decoded c' (sf_type g))"
      if "(col', ty', c') \<in> set (a # cs)" "FieldByName t (mapper_index m col') = Some g"
        "map_of v (sf_name g) = Some (zero (sf_type g))" for col' ty' c' g
    proof (cases "(col', ty', c') = a")
      case True
      then have g: "g = f" "c' = c" using that(2) Some a by auto
      have "map_of v' (sf_name f) = map_of v1 (sf_name f)"
        using v'(3) rest_differ by blast
      then show ?thesis using head that(3) g by simp
    next
      case False
      then have mem: "(col', ty', c') \<in> set cs" using that(1) by simp
      have "sf_name g \<noteq> sf_name f" using rest_differ [OF mem that(2)] .
      then have "map_of v1 (sf_name g) = Some (zero (sf_type g))" using other that(3) by simp
      then show ?thesis using v'(4) mem that(2) by blast
    qed
    show ?thesis using r1 r2 r3 r4 by blast
  qed
qed


lemma new_carrier_supported: "supported ty \<Longrightarrow> \<exists>c. new_carrier ty = Inr c"
  by (auto simp: supported_def new_carrier_def)

lemma new_carrier_unsupported:
  "\<not> supported ty \<Longrightarrow> new_carrier ty = Inl (ReturnsError (Err (''unsupprted column type: '' @ ty)))"
  by (simp add: supported_def new_carrier_def)

lemma new_carriers_supported:
  "length tys = n \<Longrightarrow> \<forall>ty \<in> set tys. supported ty \<Longrightarrow> \<exists>cs. new_carriers n tys = Inr cs"
proof (induction n tys rule: new_carriers.induct)
  case (1 tys)
  then show ?case by simp
next
  case (2 n)
  then show ?case by simp
next
  case (3 n ty tys)
  obtain c where c: "new_carrier ty = Inr c"
    using new_carrier_supported "3.prems"(2) by auto
  obtain cs where "new_carriers n tys = Inr cs"
    using "3.IH" [OF c] "3.prems" by auto
  then show ?case using c by simp
qed

lemma new_carriers_unsupported:
  "length tys = n \<Longrightarrow> \<exists>ty \<in> set tys. \<not> supported ty \<Longrightarrow>
     \<exists>ty \<in> set tys. \<not> supported ty
        \<and> new_carriers n tys = Inl (ReturnsError (Err (''unsupprted column type: '' @ ty)))"
proof (induction n tys rule: new_carriers.induct)
  case (1 tys)
  then show ?case by simp
next
  case (2 n)
  then show ?case by simp
next
  case (3 n ty tys)
  show ?case
  proof (cases "supported ty")
    case True
    then obtain c where c: "new_carrier ty = Inr c"
      using new_carrier_supported by auto
    have "\<exists>ty \<in> set tys. \<not> supported ty" using "3.prems"(2) True by auto
    then obtain ty' where "ty' \<in> set tys" "\<not> supported ty'"
      "new_carriers n tys = Inl (ReturnsError (Err (''unsupprted column type: '' @ ty')))"
      using "3.IH" [OF c] "3.prems"(1) by auto
    then show ?thesis using c by auto
  next
    case False
    then show ?thesis by (auto simp: new_carrier_unsupported)
  qed
qed

lemma new_carriers_nth:
  "length tys = n \<Longrightarrow> new_carriers n tys = Inr cs \<Longrightarrow>
     length cs = n \<and> (\<forall>j<n. new_carrier (tys ! j) = Inr (cs ! j))"
proof (induction n tys arbitrary: cs rule: new_carriers.induct)
  case (1 tys)
  then show ?case by simp
next
  case (2 n)
  then show ?case by simp
next
  case (3 n ty tys)
  obtain c where c: "new_carrier ty = Inr c"
    using "3.prems"(2) by (cases "new_carrier ty") auto
  obtain cs' where cs': "new_carriers n tys = Inr cs'"
    using "3.prems"(2) c by (cases "new_carriers n tys") auto
  have cs: "cs = c # cs'" using "3.prems"(2) c cs' by simp
  have IH: "length cs' = n \<and> (\<forall>j<n. new_carrier (tys ! j) = Inr (cs' ! j))"
    using "3.IH" [OF c _ cs'] "3.prems"(1) by simp
  show ?case
  proof (intro conjI allI impI)
    show "length cs = Suc n" using IH cs by simp
  next
    fix j assume "j < Suc n"
    then show "new_carrier ((ty # tys) ! j) = Inr (cs ! j)"
      using IH c cs by (cases j) auto
  qed
qed

lemma blank_new_carrier: "new_carrier ty = Inr c \<Longrightarrow> blank c = c"
  by (auto simp: new_carrier_def split: if_splits)

text \<open>
  One cell. A value of the reported type of its column, scanned into a carrier of the
  kind allocated for that type, is stored without error; the carrier keeps its kind,
  fits every field type documented for the column type, and its expected field value
  is the one expected for the value.
\<close>

lemma convertAssign_has_type:
  assumes "has_type ty v" and "new_carrier ty = Inr c0" and "blank c = c0"
  shows "\<exists>c'. convertAssign lib c v = Inr c' \<and> blank c' = c0
     \<and> (\<forall>ft. compatible_type ty ft \<longrightarrow> compatible c' ft \<and> decoded c' ft = expected v ft)"
proof (cases v)
  case DNull
  show ?thesis
  proof (cases c)
    case (CNullString s b)
    then show ?thesis using assms DNull
      by (auto simp: new_carrier_def compatible_type_def string_of_bytes_def is_empty_bytes_def
          split: if_splits gotype.splits)
  next
    case (CNullInt64 n b)
    then show ?thesis using assms DNull
      by (auto simp: new_carrier_def compatible_type_def split: if_splits gotype.splits)
  next
    case (CNullFloat64 x b)
    then show ?thesis using assms DNull
      by (auto simp: new_carrier_def compatible_type_def split: if_splits gotype.splits)
  next
    case (CBytes b)
    then show ?thesis using assms DNull
      by (auto simp: new_carrier_def compatible_type_def string_of_bytes_def is_empty_bytes_def
          split: if_splits gotype.splits)
  qed
next
  case (DInt64 n)
  then have ty: "ty = ''integer''" using assms(1) by (simp add: has_type_def)
  then obtain m b where c: "c = CNullInt64 m b"
    using assms(2,3) by (cases c) (auto simp: new_carrier_def)
  show ?thesis using assms(2,3) DInt64
    by (auto simp: ty c new_carrier_def compatible_type_def split: gotype.splits)
next
  case (DFloat64 x)
  then have ty: "ty = ''float''" using assms(1) by (simp add: has_type_def)
  then obtain y b where c: "c = CNullFloat64 y b"
    using assms(2,3) by (cases c) (auto simp: new_carrier_def)
  show ?thesis using assms(2,3) DFloat64
    by (auto simp: ty c new_carrier_def compatible_type_def)
next
  case (DString s)
  then have ty: "ty = ''text''" using assms(1) by (simp add: has_type_def)
  then obtain s0 b where c: "c = CNullString s0 b"
    using assms(2,3) by (cases c) (auto simp: new_carrier_def)
  show ?thesis using assms(2,3) DString
    by (auto simp: ty c new_carrier_def compatible_type_def)
next
  case (DBytes bs)
  then have ty: "ty = ''blob''" using assms(1) by (simp add: has_type_def)
  then obtain b0 where c: "c = CBytes b0"
    using assms(2,3) by (cases c) (auto simp: new_carrier_def)
  show ?thesis using assms(2,3) DBytes
    by (auto simp: ty c new_carrier_def compatible_type_def is_empty_bytes_def)
qed

text \<open>One row: all its values are stored, column by column.\<close>

lemma scan_cols_has_type:
  assumes "length colNames = length cols" and "length vals = length cols"
    and "length tys = length cols" and "length cs0 = length cols"
    and "\<forall>j<length cols. new_carrier (tys ! j) = Inr (cs0 ! j)"
    and "\<forall>j<length cols. blank (cols ! j) = cs0 ! j"
    and "\<forall>j<length cols. has_type (tys ! j) (vals ! j)"
  shows "\<exists>cols'. scan_cols lib i (zip colNames (zip cols vals)) = Inr cols'
     \<and> length cols' = length cols
     \<and> (\<forall>j<length cols. blank (cols' ! j) = cs0 ! j)
     \<and> (\<forall>j<length cols. \<forall>ft. compatible_type (tys ! j) ft \<longrightarrow>
           compatible (cols' ! j) ft \<and> decoded (cols' ! j) ft = expected (vals ! j) ft)"
  using assms
proof (induction cols arbitrary: colNames vals tys cs0 i)
  case Nil
  then show ?case by simp
next
  case (Cons c cols)
  obtain col colNames' where n: "colNames = col # colNames'" "length colNames' = length cols"
    using Cons.prems(1) by (cases colNames) auto
  obtain v vals' where v: "vals = v # vals'" "length vals' = length cols"
    using Cons.prems(2) by (cases vals) auto
  obtain ty tys' where t: "tys = ty # tys'" "length tys' = length cols"
    using Cons.prems(3) by (cases tys) auto
  obtain c0 cs0' where z: "cs0 = c0 # cs0'" "length cs0' = length cols"
    using Cons.prems(4) by (cases cs0) auto
  have h0: "new_carrier ty = Inr c0" "blank c = c0" "has_type ty v"
    using Cons.prems(5,6,7) t z v by auto
  have hs: "\<forall>j<length cols. new_carrier (tys' ! j) = Inr (cs0' ! j)"
    "\<forall>j<length cols. blank (cols ! j) = cs0' ! j"
    "\<forall>j<length cols. has_type (tys' ! j) (vals' ! j)"
    using Cons.prems(5,6,7) t z v by auto
  obtain c' where c': "convertAssign lib c v = Inr c'" "blank c' = c0"
    "\<forall>ft. compatible_type ty ft \<longrightarrow> compatible c' ft \<and> decoded c' ft = expected v ft"
    using convertAssign_has_type [OF h0(3) h0(1) h0(2)] by blast
  obtain cols' where cols': "scan_cols lib (Suc i) (zip colNames' (zip cols vals')) = Inr cols'"
    "length cols' = length cols"
    "\<forall>j<length cols. blank (cols' ! j) = cs0' ! j"
    "\<forall>j<length cols. \<forall>ft. compatible_type (tys' ! j) ft \<longrightarrow>
           compatible (cols' ! j) ft \<and> decoded (cols' ! j) ft = expected (vals' ! j) ft"
    using Cons.IH [OF n(2) v(2) t(2) z(2) hs] by blast
  have r1: "scan_cols lib i (zip colNames (zip (c # cols) vals)) = Inr (c' # cols')"
    using c'(1) cols'(1) n(1) v(1) by simp
  have r2: "length (c' # cols') = length (c # cols)" using cols'(2) by simp
  have r3: "blank ((c' # cols') ! j) = cs0 ! j" if "j < length (c # cols)" for j
    using that c'(2) cols'(3) z(1) by (cases j) auto
  have r4: "compatible ((c' # cols') ! j) ft \<and> decoded ((c' # cols') ! j) ft = expected (vals ! j) ft"
    if "j < length (c # cols)" "compatible_type (tys ! j) ft" for j ft
    using that c'(3) cols'(4) t(1) v(1) by (cases j) auto
  show ?case using r1 r2 r3 r4 by blast
qed

lemma mapper_of_consistent:
  "tagFieldMapper t = None \<or> tagFieldMapper t = Some (build_mapper t) \<Longrightarrow>
     fst (mapper_of tagFieldMapper t) = build_mapper t"
  by (auto simp: mapper_of_def)

lemma fill_row_zero:
  assumes d: "distinct colNames"
    and len: "length colTypes = length colNames" "length cells = length colNames"
    and wf: "distinct (map sf_name (struct_fields t))" "[] \<notin> sf_name ` set (struct_fields t)"
    and fit: "\<forall>j<length colNames. \<forall>f.
           FieldByName t (mapper_index (build_mapper t) (colNames ! j)) = Some f \<longrightarrow>
           exported f \<and> compatible (cells ! j) (sf_type f)"
  shows "\<exists>v. fill_row t (build_mapper t) (zero_struct t) (zip colNames (zip colTypes cells)) = Inr v
     \<and> map fst v = map sf_name (struct_fields t)
     \<and> (\<forall>j<length colNames. \<forall>f.
           FieldByName t (mapper_index (build_mapper t) (colNames ! j)) = Some f \<longrightarrow>
           get_field v (sf_name f) = Some (decoded (cells ! j) (sf_type f)))"
proof -
  let ?m = "build_mapper t"
  let ?cs = "zip colNames (zip colTypes cells)"
  have l: "length (zip colTypes cells) = length colNames" using len by simp
  have fsts: "map fst ?cs = colNames" using l by simp
  have mem: "(colNames ! j, colTypes ! j, cells ! j) \<in> set ?cs" if "j < length colNames" for j
    using that len by (auto simp: in_set_zip intro!: exI [of _ j])
  have idx: "\<exists>j<length colNames. col = colNames ! j \<and> c = cells ! j"
    if "(col, ty, c) \<in> set ?cs" for col ty c
    using that len by (auto simp: in_set_zip)
  have a1: "distinct (map fst ?cs)" using d fsts by simp
  have a2: "\<forall>col1 col2 f1 f2. col1 \<noteq> col2 \<longrightarrow> FieldByName t (mapper_index ?m col1) = Some f1 \<longrightarrow>
           FieldByName t (mapper_index ?m col2) = Some f2 \<longrightarrow> sf_name f1 \<noteq> sf_name f2"
    using targets_differ [OF wf] by blast
  have a3: "\<forall>col ty c f. (col, ty, c) \<in> set ?cs \<longrightarrow> FieldByName t (mapper_index ?m col) = Some f \<longrightarrow>
           exported f \<and> compatible c (sf_type f)"
    using idx fit by blast
  obtain v where v: "fill_row t ?m (zero_struct t) ?cs = Inr v"
    "map fst v = map fst (zero_struct t)"
    "\<forall>col ty c f. (col, ty, c) \<in> set ?cs \<longrightarrow> FieldByName t (mapper_index ?m col) = Some f \<longrightarrow>
            map_of (zero_struct t) (sf_name f) = Some (zero (sf_type f)) \<longrightarrow>
            map_of v (sf_name f) = Some (decoded c (sf_type f))"
    using fill_row_compatible [OF a1 a2 a3, where v = "zero_struct t"] by blast
  have keys: "map fst v = map sf_name (struct_fields t)"
    using v(2) by (simp add: zero_struct_def comp_def)
  have vals: "get_field v (sf_name f) = Some (decoded (cells ! j) (sf_type f))"
    if "j < length colNames" "FieldByName t (mapper_index ?m (colNames ! j)) = Some f" for j f
  proof -
    have "f \<in> set (struct_fields t)" using FieldByName_Some [OF that(2)] by simp
    then have "map_of (zero_struct t) (sf_name f) = Some (zero (sf_type f))"
      by (rule map_of_zero_struct [OF wf(1)])
    then show ?thesis using v(3) mem [OF that(1)] that(2) by (simp add: get_field_def)
  qed
  show ?thesis using v(1) keys vals by blast
qed

text \<open>
  All rows. The carriers keep the kinds the first loop gave them from row to row, so
  every row is scanned and decoded as the first.
\<close>

lemma scan_rows_compatible:
  assumes d: "distinct colNames"
    and len: "length colTypes = length colNames" "length cs0 = length colNames"
    and wf: "distinct (map sf_name (struct_fields t))" "[] \<notin> sf_name ` set (struct_fields t)"
    and alloc: "\<forall>j<length colNames. new_carrier (colTypes ! j) = Inr (cs0 ! j)"
    and fields: "\<forall>j<length colNames. \<forall>f.
        FieldByName t (mapper_index (build_mapper t) (colNames ! j)) = Some f \<longrightarrow>
        exported f \<and> compatible_type (colTypes ! j) (sf_type f)"
    and kinds: "length cols = length colNames" "\<forall>j<length colNames. blank (cols ! j) = cs0 ! j"
    and vals: "\<forall>cells \<in> set rws. length cells = length colNames
        \<and> (\<forall>j<length colNames. has_type (colTypes ! j) (cells ! j))"
  shows "\<exists>recs. scan_rows lib t (build_mapper t) colNames colTypes cols acc rws = Inr (acc @ recs)
     \<and> length recs = length rws
     \<and> (\<forall>i<length rws.
          map fst (recs ! i) = map sf_name (struct_fields t)
          \<and> (\<forall>j<length colNames. \<forall>f.
                FieldByName t (mapper_index (build_mapper t) (colNames ! j)) = Some f \<longrightarrow>
                get_field (recs ! i) (sf_name f) = Some (expected (rws ! i ! j) (sf_type f))))"
  using kinds vals
proof (induction rws arbitrary: acc cols)
  case Nil
  then show ?case by simp
next
  case (Cons cells rws)
  have lc: "length cells = length colNames"
    and ht: "\<forall>j<length colNames. has_type (colTypes ! j) (cells ! j)"
    using Cons.prems(3) by auto
  have n: "length colNames = length cols" using Cons.prems(1) by simp
  obtain cols' where cols': "scan_cols lib 0 (zip colNames (zip cols cells)) = Inr cols'"
    "length cols' = length cols"
    "\<forall>j<length cols. blank (cols' ! j) = cs0 ! j"
    "\<forall>j<length cols. \<forall>ft. compatible_type (colTypes ! j) ft \<longrightarrow>
           compatible (cols' ! j) ft \<and> decoded (cols' ! j) ft = expected (cells ! j) ft"
    using scan_cols_has_type [of colNames cols cells colTypes cs0 lib 0]
      n lc len alloc Cons.prems(2) ht by auto
  have sc: "Scan lib colNames cols cells = Inr cols'"
    using cols'(1) lc n by (simp add: Scan_def)
  have fit: "\<forall>j<length colNames. \<forall>f.
           FieldByName t (mapper_index (build_mapper t) (colNames ! j)) = Some f \<longrightarrow>
           exported f \<and> compatible (cols' ! j) (sf_type f)"
    using fields cols'(4) n by auto
  have l': "length cols' = length colNames" using cols'(2) n by simp
  obtain v where v:
    "fill_row t (build_mapper t) (zero_struct t) (zip colNames (zip colTypes cols')) = Inr v"
    "map fst v = map sf_name (struct_fields t)"
    "\<forall>j<length colNames. \<forall>f.
           FieldByName t (mapper_index (build_mapper t) (colNames ! j)) = Some f \<longrightarrow>
           get_field v (sf_name f) = Some (decoded (cols' ! j) (sf_type f))"
    using fill_row_zero [OF d len(1) l' wf fit] by blast
  have v3: "\<forall>j<length colNames. \<forall>f.
           FieldByName t (mapper_index (build_mapper t) (colNames ! j)) = Some f \<longrightarrow>
           get_field v (sf_name f) = Some (expected (cells ! j) (sf_type f))"
    using v(3) fields cols'(4) n by auto
  have k': "\<forall>j<length colNames. blank (cols' ! j) = cs0 ! j" using cols'(3) n by simp
  have rest: "\<forall>cells \<in> set rws. length cells = length colNames
        \<and> (\<forall>j<length colNames. has_type (colTypes ! j) (cells ! j))"
    using Cons.prems(3) by simp
  obtain recs where recs:
    "scan_rows lib t (build_mapper t) colNames colTypes cols' (acc @ [v]) rws = Inr ((acc @ [v]) @ recs)"
    "length recs = length rws"
    "\<forall>i<length rws.
          map fst (recs ! i) = map sf_name (struct_fields t)
          \<and> (\<forall>j<length colNames. \<forall>f.
                FieldByName t (mapper_index (build_mapper t) (colNames ! j)) = Some f \<longrightarrow>
                get_field (recs ! i) (sf_name f) = Some (expected (rws ! i ! j) (sf_type f)))"
    using Cons.IH [OF l' k' rest, where acc = "acc @ [v]"] by blast
  have r1: "scan_rows lib t (build_mapper t) colNames colTypes cols acc (cells # rws)
      = Inr (acc @ (v # recs))"
    using sc v(1) recs(1) by simp
  have r2: "length (v # recs) = length (cells # rws)" using recs(2) by simp
  have r3: "map fst ((v # recs) ! i) = map sf_name (struct_fields t)
          \<and> (\<forall>j<length colNames. \<forall>f.
                FieldByName t (mapper_index (build_mapper t) (colNames ! j)) = Some f \<longrightarrow>
                get_field ((v # recs) ! i) (sf_name f)
                  = Some (expected ((cells # rws) ! i ! j) (sf_type f)))"
    if "i < length (cells # rws)" for i
  proof (cases i)
    case 0
    then show ?thesis using v(2) v3 by simp
  next
    case (Suc k)
    then have "k < length rws" using that by auto
    then show ?thesis using recs(3) Suc by simp
  qed
  show ?case using r1 r2 r3 by blast
qed

lemmas mapper_eval =
  StructsFromRows_def mapper_of_def build_mapper_def new_carrier_def zero_struct_def
  FieldByName_def mapper_index_def assignable_from_def Set_def SetInt_def SetString_def
  SetFloat_def SetBytes_def exported_def set_field_def string_of_bytes_def is_empty_bytes_def
  Scan_def

text \<open>
  C2 (as amended). When the destination is not nil, the column names and types can be
  read, and some column has a type other than \<open>null\<close>, \<open>text\<close>, \<open>integer\<close>, \<open>float\<close> and
  \<open>blob\<close>, \<open>StructsFromRows\<close> returns the unsupported-column-type error for such a type
  and the destination slice is what it was.
\<close>

theorem unsupported_column_type_fails:
  assumes "Columns rs = Inr colNames" and "ColumnTypes rs = Inr colTypes"
    and "length colTypes = length colNames"
    and "\<exists>ty \<in> set colTypes. \<not> supported ty"
  shows "\<exists>ty cache. ty \<in> set colTypes \<and> \<not> supported ty
     \<and> StructsFromRows lib tagFieldMapper (Some t) dest rs
         = (Some (ReturnsError (Err (''unsupprted column type: '' @ ty))), dest, cache)"
proof -
  obtain ty where ty: "ty \<in> set colTypes" "\<not> supported ty"
    "new_carriers (length colNames) colTypes
       = Inl (ReturnsError (Err (''unsupprted column type: '' @ ty)))"
    using new_carriers_unsupported [OF assms(3) assms(4)] by blast
  obtain m cache where mc: "mapper_of tagFieldMapper t = (m, cache)"
    by (cases "mapper_of tagFieldMapper t") auto
  have "StructsFromRows lib tagFieldMapper (Some t) dest rs
         = (Some (ReturnsError (Err (''unsupprted column type: '' @ ty))), dest, cache)"
    by (simp add: StructsFromRows_def mc assms(1,2) ty(3))
  then show ?thesis using ty(1,2) by blast
qed

theorem unsupported_column_type_fails_witness:
  "\<forall>lib. \<exists>cache. StructsFromRows lib Map.empty (Some example_struct) [] date_rows
      = (Some (ReturnsError (Err ''unsupprted column type: date'')), [], cache)"
proof
  fix lib :: sqllib
  have "\<exists>ty cache. ty \<in> set [''text'', ''date''] \<and> \<not> supported ty
     \<and> StructsFromRows lib Map.empty (Some example_struct) [] date_rows
         = (Some (ReturnsError (Err (''unsupprted column type: '' @ ty))), [], cache)"
    by (rule unsupported_column_type_fails [where colNames = "[''name'', ''born'']"])
       (simp_all add: date_rows_def supported_def)
  then obtain ty cache where ty: "ty \<in> set [''text'', ''date'']" "\<not> supported ty"
    and r: "StructsFromRows lib Map.empty (Some example_struct) [] date_rows
         = (Some (ReturnsError (Err (''unsupprted column type: '' @ ty))), [], cache)"
    by blast
  have "supported ''text''" by (simp add: supported_def)
  then have "ty = ''date''" using ty by auto
  then show "\<exists>cache. StructsFromRows lib Map.empty (Some example_struct) [] date_rows
      = (Some (ReturnsError (Err ''unsupprted column type: date'')), [], cache)"
    using r by auto
qed

text \<open>
  The type \<open>null\<close> is none of text, integer, float and blob, and yet a result set with
  a column of that type is decoded without error and the destination is replaced; and
  with a nil destination nothing fails, whatever the column types are.
\<close>

theorem null_column_type_is_decoded:
  "\<forall>lib. \<not> (''null'' \<in> set [''text'', ''integer'', ''float'', ''blob''])
   \<and> fst (StructsFromRows lib Map.empty (Some doc_struct) [] null_rows) = None
   \<and> fst (snd (StructsFromRows lib Map.empty (Some doc_struct) [] null_rows))
       = [[(''Data'', VNullString [] False), (''Title'', VString [])]]
   \<and> fst (StructsFromRows lib Map.empty None [] date_rows) = None"
  by (simp add: mapper_eval doc_struct_def null_rows_def)

text \<open>
  C4 (as amended). Take a struct type whose field names are distinct and not empty, a
  mapper cache that is empty or right for it, and a result set with distinct column
  names and supported column types, in which every column that is mapped to a field
  meets an exported field of a type documented for the reported type of the column,
  and every value is nil or of the reported type of its column. Then
  \<open>StructsFromRows\<close> returns no error and one record for each row, and in the record of
  a row the field of each mapped column holds the expected value: for nil the zero
  value of the field; else the value as it is in a plain field of its kind, in the
  nullable struct of its kind marked valid, and a blob as it is in a \<open>[]byte\<close>, as the
  string of its bytes in a \<open>string\<close>, and in a \<open>sql.NullString\<close> valid exactly when it
  has a byte.
\<close>

theorem compatible_columns_decode_exactly:
  assumes wf: "distinct (map sf_name (struct_fields t))" "[] \<notin> sf_name ` set (struct_fields t)"
    and cache: "tagFieldMapper t = None \<or> tagFieldMapper t = Some (build_mapper t)"
    and cols: "Columns rs = Inr colNames" "ColumnTypes rs = Inr colTypes"
      "length colTypes = length colNames" "distinct colNames"
      "\<forall>ty \<in> set colTypes. supported ty"
    and fields: "\<forall>j<length colNames. \<forall>f.
        FieldByName t (mapper_index (build_mapper t) (colNames ! j)) = Some f \<longrightarrow>
        exported f \<and> compatible_type (colTypes ! j) (sf_type f)"
    and vals: "\<forall>cells \<in> set (Values rs). length cells = length colNames
        \<and> (\<forall>j<length colNames. has_type (colTypes ! j) (cells ! j))"
  shows "\<exists>recs cache'. StructsFromRows lib tagFieldMapper (Some t) dest rs = (None, recs, cache')
     \<and> length recs = length (Values rs)
     \<and> (\<forall>i<length (Values rs).
          map fst (recs ! i) = map sf_name (struct_fields t)
          \<and> (\<forall>j<length colNames. \<forall>f.
                FieldByName t (mapper_index (build_mapper t) (colNames ! j)) = Some f \<longrightarrow>
                get_field (recs ! i) (sf_name f)
                  = Some (expected (Values rs ! i ! j) (sf_type f))))"
proof -
  obtain m cache' where mc: "mapper_of tagFieldMapper t = (m, cache')"
    by (cases "mapper_of tagFieldMapper t") auto
  have m: "m = build_mapper t"
    using mapper_of_consistent [of tagFieldMapper t] cache mc by simp
  obtain cs0 where cs0: "new_carriers (length colNames) colTypes = Inr cs0"
    using new_carriers_supported [OF cols(3) cols(5)] by blast
  have a: "length cs0 = length colNames"
    "\<forall>j<length colNames. new_carrier (colTypes ! j) = Inr (cs0 ! j)"
    using new_carriers_nth [OF cols(3) cs0] by auto
  have b: "\<forall>j<length colNames. blank (cs0 ! j) = cs0 ! j"
    using a(2) blank_new_carrier by auto
  obtain recs where recs:
    "scan_rows lib t (build_mapper t) colNames colTypes cs0 [] (Values rs) = Inr ([] @ recs)"
    "length recs = length (Values rs)"
    "\<forall>i<length (Values rs).
          map fst (recs ! i) = map sf_name (struct_fields t)
          \<and> (\<forall>j<length colNames. \<forall>f.
                FieldByName t (mapper_index (build_mapper t) (colNames ! j)) = Some f \<longrightarrow>
                get_field (recs ! i) (sf_name f)
                  = Some (expected (Values rs ! i ! j) (sf_type f)))"
    using scan_rows_compatible [OF cols(4) cols(3) a(1) wf a(2) fields a(1) b vals, where acc = "[]"]
    by blast
  have "StructsFromRows lib tagFieldMapper (Some t) dest rs = (None, recs, cache')"
    using recs(1) by (simp add: StructsFromRows_def mc m cols(1,2) cs0)
  then show ?thesis using recs(2,3) by blast
qed

lemma example_struct_fields:
  "FieldByName example_struct (mapper_index (build_mapper example_struct) ''id'')
     = Some \<lparr>sf_name = ''Id'', sf_tag = ''id'', sf_type = TInt ''int64'' 64\<rparr>"
  "FieldByName example_struct (mapper_index (build_mapper example_struct) ''name'')
     = Some \<lparr>sf_name = ''Name'', sf_tag = ''name'', sf_type = TString\<rparr>"
  "FieldByName example_struct (mapper_index (build_mapper example_struct) ''note'')
     = Some \<lparr>sf_name = ''Note'', sf_tag = ''note'', sf_type = TNullString\<rparr>"
  "FieldByName example_struct (mapper_index (build_mapper example_struct) ''data'')
     = Some \<lparr>sf_name = ''Data'', sf_tag = ''data'', sf_type = TNullString\<rparr>"
  by (simp_all add: example_struct_def build_mapper_def mapper_index_def FieldByName_def)

theorem compatible_columns_decode_exactly_witness:
  "\<forall>lib. \<exists>recs cache'.
       StructsFromRows lib Map.empty (Some example_struct) [] example_rows = (None, recs, cache')
     \<and> length recs = 1
     \<and> get_field (recs ! 0) ''Id'' = Some (VInt 1)
     \<and> get_field (recs ! 0) ''Name'' = Some (VString ''a'')
     \<and> get_field (recs ! 0) ''Note'' = Some (VNullString [] False)
     \<and> get_field (recs ! 0) ''Data'' = Some (VNullString (string_of_bytes (Some [1, 2])) True)"
proof
  fix lib :: sqllib
  let ?names = "[''id'', ''name'', ''note'', ''data'']"
  let ?types = "[''integer'', ''text'', ''text'', ''blob'']"
  let ?cells = "[DInt64 1, DString ''a'', DNull, DBytes [1, 2]]"
  have fields: "\<forall>j<length ?names. \<forall>f.
        FieldByName example_struct (mapper_index (build_mapper example_struct) (?names ! j)) = Some f \<longrightarrow>
        exported f \<and> compatible_type (?types ! j) (sf_type f)"
    by (simp add: example_struct_fields exported_def compatible_type_def less_Suc_eq
        numeral_2_eq_2 numeral_3_eq_3 eval_nat_numeral all_conj_distrib)
  have vals: "\<forall>cells \<in> set (Values example_rows). length cells = length ?names
        \<and> (\<forall>j<length ?names. has_type (?types ! j) (cells ! j))"
    by (simp add: example_rows_def has_type_def less_Suc_eq
        numeral_2_eq_2 numeral_3_eq_3 eval_nat_numeral all_conj_distrib)
  obtain recs cache' where r:
    "StructsFromRows lib Map.empty (Some example_struct) [] example_rows = (None, recs, cache')"
    "length recs = length (Values example_rows)"
    "\<forall>i<length (Values example_rows).
          map fst (recs ! i) = map sf_name (struct_fields example_struct)
          \<and> (\<forall>j<length ?names. \<forall>f.
                FieldByName example_struct (mapper_index (build_mapper example_struct) (?names ! j)) = Some f \<longrightarrow>
                get_field (recs ! i) (sf_name f)
                  = Some (expected (Values example_rows ! i ! j) (sf_type f)))"
    using compatible_columns_decode_exactly [where t = example_struct and tagFieldMapper = Map.empty
        and rs = example_rows and colNames = ?names and colTypes = ?types and dest = "[]"
        and lib = lib, OF _ _ _ _ _ _ _ _ fields vals]
    by (auto simp: example_rows_def example_struct_def supported_def)
  have row: "\<forall>j<length ?names. \<forall>f.
                FieldByName example_struct (mapper_index (build_mapper example_struct) (?names ! j)) = Some f \<longrightarrow>
                get_field (recs ! 0) (sf_name f) = Some (expected (?cells ! j) (sf_type f))"
    using r(3) by (simp add: example_rows_def)
  have "get_field (recs ! 0) ''Id'' = Some (VInt 1)"
    using row [rule_format, of 0] by (simp add: example_struct_fields)
  moreover have "get_field (recs ! 0) ''Name'' = Some (VString ''a'')"
    using row [rule_format, of 1] by (simp add: example_struct_fields)
  moreover have "get_field (recs ! 0) ''Note'' = Some (VNullString [] False)"
    using row [rule_format, of 2] by (simp add: example_struct_fields)
  moreover have "get_field (recs ! 0) ''Data'' = Some (VNullString (string_of_bytes (Some [1, 2])) True)"
    using row [rule_format, of 3] by (simp add: example_struct_fields)
  moreover have "length recs = 1" using r(2) by (simp add: example_rows_def)
  ultimately show "\<exists>recs cache'.
       StructsFromRows lib Map.empty (Some example_struct) [] example_rows = (None, recs, cache')
     \<and> length recs = 1
     \<and> get_field (recs ! 0) ''Id'' = Some (VInt 1)
     \<and> get_field (recs ! 0) ''Name'' = Some (VString ''a'')
     \<and> get_field (recs ! 0) ''Note'' = Some (VNullString [] False)
     \<and> get_field (recs ! 0) ''Data'' = Some (VNullString (string_of_bytes (Some [1, 2])) True)"
    using r(1) by blast
qed

text \<open>
  A null blob and an empty one decode to the same invalid \<open>sql.NullString\<close>, and a null
  text and an empty one to the same empty \<open>string\<close>: the two rows of the example differ
  in both values, the column types are documented for the field types, all four values
  are of the types of their columns, and the two records are equal.
\<close>

theorem null_and_empty_decode_alike:
  "\<forall>lib. Values doc_rows ! 0 ! 0 \<noteq> Values doc_rows ! 1 ! 0
   \<and> Values doc_rows ! 0 ! 1 \<noteq> Values doc_rows ! 1 ! 1
   \<and> compatible_type ''blob'' TNullString \<and> compatible_type ''text'' TString
   \<and> has_type ''blob'' DNull \<and> has_type ''blob'' (DBytes [])
   \<and> has_type ''text'' DNull \<and> has_type ''text'' (DString [])
   \<and> fst (StructsFromRows lib Map.empty (Some doc_struct) [] doc_rows) = None
   \<and> fst (snd (StructsFromRows lib Map.empty (Some doc_struct) [] doc_rows))
       = [[(''Data'', VNullString [] False), (''Title'', VString [])],
          [(''Data'', VNullString [] False), (''Title'', VString [])]]"
  by (simp add: mapper_eval doc_struct_def doc_rows_def compatible_type_def has_type_def)

end
